theory Spec2Isabelle
  imports Complex_Main "HOL-Library.Multiset" "HOL-Library.Char_ord" "HOL-Library.List_Lexorder"
begin

section \<open>Data model\<close>

text \<open>
  Go's \<open>float64\<close>, as far as the program observes it: the program stores the value that
  \<open>strconv.ParseFloat\<close> returns (or the constant 1) and compares two such values with
  \<open>>\<close>. A finite value is the real number it denotes (both zeros are \<open>F64 0\<close>: no
  comparison tells them apart); the three special values are kept, because
  \<open>ParseFloat\<close> accepts the words \<open>NaN\<close> and \<open>Inf\<close>.
\<close>

datatype float64 = NaN | NInf | F64 real | PInf

text \<open>The comparison \<open>x > y\<close> of IEEE 754: false whenever an operand is NaN.\<close>

fun f64_gt :: "float64 \<Rightarrow> float64 \<Rightarrow> bool" where
  "f64_gt NaN y = False"
| "f64_gt x NaN = False"
| "f64_gt PInf y = (y \<noteq> PInf)"
| "f64_gt (F64 a) (F64 b) = (b < a)"
| "f64_gt (F64 a) NInf = True"
| "f64_gt (F64 a) PInf = False"
| "f64_gt NInf y = False"

text \<open>\<open>type AcceptEncoding struct { Algorithm string; QualityValue float64 }\<close>\<close>

record AcceptEncoding =
  Algorithm :: string
  QualityValue :: float64

text \<open>
  \<open>http.Header\<close> is \<open>map[string][]string\<close>. Every key the program uses is already in
  canonical form, so \<open>Get\<close>, \<open>Values\<close>, \<open>Set\<close> and \<open>Add\<close> act on the key as written.
\<close>

type_synonym header = "string \<rightharpoonup> string list"

definition Header_Get :: "header \<Rightarrow> string \<Rightarrow> string" where
  "Header_Get h k = (case h k of None \<Rightarrow> [] | Some [] \<Rightarrow> [] | Some (v # vs) \<Rightarrow> v)"

definition Header_Values :: "header \<Rightarrow> string \<Rightarrow> string list" where
  "Header_Values h k = (case h k of None \<Rightarrow> [] | Some vs \<Rightarrow> vs)"

definition Header_Set :: "header \<Rightarrow> string \<Rightarrow> string \<Rightarrow> header" where
  "Header_Set h k v = h(k \<mapsto> [v])"

definition Header_Add :: "header \<Rightarrow> string \<Rightarrow> string \<Rightarrow> header" where
  "Header_Add h k v = h(k \<mapsto> Header_Values h k @ [v])"

text \<open>The fields of \<open>*http.Request\<close> that the program reads or writes.\<close>

record Request =
  Method :: string
  URL_Path :: string
  URL_RawQuery :: string
  Header :: header

text \<open>
  An \<open>http.ResponseWriter\<close>: the header map, the status of the first \<open>WriteHeader\<close>
  (later calls are ignored, and a \<open>Write\<close> before any \<open>WriteHeader\<close> sends 200), and the
  bytes written.
\<close>

record ResponseWriter =
  resp_Header :: header
  resp_status :: "nat option"
  resp_body :: string

definition w_Set :: "ResponseWriter \<Rightarrow> string \<Rightarrow> string \<Rightarrow> ResponseWriter" where
  "w_Set w k v = w\<lparr>resp_Header := Header_Set (resp_Header w) k v\<rparr>"

definition w_Add :: "ResponseWriter \<Rightarrow> string \<Rightarrow> string \<Rightarrow> ResponseWriter" where
  "w_Add w k v = w\<lparr>resp_Header := Header_Add (resp_Header w) k v\<rparr>"

definition WriteHeader :: "ResponseWriter \<Rightarrow> nat \<Rightarrow> ResponseWriter" where
  "WriteHeader w code = (if resp_status w = None then w\<lparr>resp_status := Some code\<rparr> else w)"

definition Write :: "ResponseWriter \<Rightarrow> string \<Rightarrow> ResponseWriter" where
  "Write w bs = (let w' = WriteHeader w 200 in w'\<lparr>resp_body := resp_body w' @ bs\<rparr>)"

text \<open>\<open>time.Time\<close>, as seconds since the epoch.\<close>

type_synonym time = int

text \<open>
  The library routines the program calls and whose code is not part of the repository.
  Each is a field of the runtime, named after the Go function it stands for:
  \<open>strconv.ParseFloat(s, 64)\<close> (\<open>None\<close> when it returns an error), \<open>sort.Slice\<close> (the
  comparison is between elements rather than indices), \<open>http.ServeContent\<close>,
  \<open>t.UTC().Format(http.TimeFormat)\<close>, \<open>path.Clean\<close>, \<open>filepath.ToSlash\<close>,
  \<open>filepath.Ext\<close>, \<open>mime.TypeByExtension\<close>, \<open>http.DetectContentType\<close>, the gzip and
  zlib writers at \<open>BestCompression\<close> (the whole stream they produce for an input), and
  \<open>http.NotFound\<close>.
\<close>

record runtime =
  strconv_ParseFloat :: "string \<Rightarrow> float64 option"
  sort_Slice :: "(AcceptEncoding \<Rightarrow> AcceptEncoding \<Rightarrow> bool) \<Rightarrow> AcceptEncoding list \<Rightarrow> AcceptEncoding list"
  http_ServeContent :: "ResponseWriter \<Rightarrow> Request \<Rightarrow> string \<Rightarrow> time \<Rightarrow> string \<Rightarrow> ResponseWriter"
  http_TimeFormat :: "time \<Rightarrow> string"
  path_Clean :: "string \<Rightarrow> string"
  filepath_ToSlash :: "string \<Rightarrow> string"
  filepath_Ext :: "string \<Rightarrow> string"
  mime_TypeByExtension :: "string \<Rightarrow> string"
  http_DetectContentType :: "string \<Rightarrow> string"
  gzip_BestCompression :: "string \<Rightarrow> string"
  zlib_BestCompression :: "string \<Rightarrow> string"
  http_NotFound :: "ResponseWriter \<Rightarrow> Request \<Rightarrow> ResponseWriter"

section \<open>String helpers of the standard library\<close>

text \<open>\<open>strings.Split(s, sep)\<close> for a separator of one byte, as in \<open>strings.Split(v, ",")\<close>.\<close>

primrec Split :: "string \<Rightarrow> char \<Rightarrow> string list" where
  "Split [] sep = [[]]"
| "Split (c # cs) sep =
     (if c = sep then [] # Split cs sep
      else (case Split cs sep of [] \<Rightarrow> [[c]] | p # ps \<Rightarrow> (c # p) # ps))"

text \<open>
  \<open>strings.LastIndex(s, substr)\<close>: the index of the last occurrence, found by trying the
  positions from \<open>len(s) - len(substr)\<close> down to 0, or -1.
\<close>

primrec lastIndexFrom :: "string \<Rightarrow> string \<Rightarrow> nat \<Rightarrow> int" where
  "lastIndexFrom s sub 0 = (if take (length sub) s = sub then 0 else -1)"
| "lastIndexFrom s sub (Suc k) =
     (if take (length sub) (drop (Suc k) s) = sub then int (Suc k) else lastIndexFrom s sub k)"

definition LastIndex :: "string \<Rightarrow> string \<Rightarrow> int" where
  "LastIndex s sub =
     (if length s < length sub then -1 else lastIndexFrom s sub (length s - length sub))"

text \<open>
  \<open>strings.TrimSpace\<close> removes the leading and trailing white space of Unicode. On the
  bytes of a string these are the UTF-8 encodings below: tab, line feed, vertical tab,
  form feed, carriage return, space, U+0085, U+00A0, U+1680, U+2000 to U+200A, U+2028,
  U+2029, U+202F, U+205F and U+3000.
\<close>

definition space_runes :: "string list" where
  "space_runes =
     [[CHR 0x09], [CHR 0x0A], [CHR 0x0B], [CHR 0x0C], [CHR 0x0D], [CHR 0x20],
      [CHR 0xC2, CHR 0x85], [CHR 0xC2, CHR 0xA0],
      [CHR 0xE1, CHR 0x9A, CHR 0x80],
      [CHR 0xE2, CHR 0x80, CHR 0x80], [CHR 0xE2, CHR 0x80, CHR 0x81],
      [CHR 0xE2, CHR 0x80, CHR 0x82], [CHR 0xE2, CHR 0x80, CHR 0x83],
      [CHR 0xE2, CHR 0x80, CHR 0x84], [CHR 0xE2, CHR 0x80, CHR 0x85],
      [CHR 0xE2, CHR 0x80, CHR 0x86], [CHR 0xE2, CHR 0x80, CHR 0x87],
      [CHR 0xE2, CHR 0x80, CHR 0x88], [CHR 0xE2, CHR 0x80, CHR 0x89],
      [CHR 0xE2, CHR 0x80, CHR 0x8A],
      [CHR 0xE2, CHR 0x80, CHR 0xA8], [CHR 0xE2, CHR 0x80, CHR 0xA9],
      [CHR 0xE2, CHR 0x80, CHR 0xAF], [CHR 0xE2, CHR 0x81, CHR 0x9F],
      [CHR 0xE3, CHR 0x80, CHR 0x80]]"

function trimLeading :: "string list \<Rightarrow> string \<Rightarrow> string" where
  "trimLeading ps s =
     (case find (\<lambda>p. p \<noteq> [] \<and> take (length p) s = p) ps of
        None \<Rightarrow> s
      | Some p \<Rightarrow> trimLeading ps (drop (length p) s))"
  by pat_completeness auto
termination
proof (relation "measure (\<lambda>(ps, s). length s)")
  show "wf (measure (\<lambda>(ps, s). length s))" by simp
next
  fix ps :: "string list" and s p :: string
  assume "find (\<lambda>p. p \<noteq> [] \<and> take (length p) s = p) ps = Some p"
  then have p: "p \<noteq> []" "take (length p) s = p"
    by (auto simp: find_Some_iff)
  then have "s \<noteq> []" by auto
  with p show "((ps, drop (length p) s), (ps, s)) \<in> measure (\<lambda>(ps, s). length s)"
    by simp
qed

declare trimLeading.simps [simp del]

definition TrimSpace :: "string \<Rightarrow> string" where
  "TrimSpace s = rev (trimLeading (map rev space_runes) (rev (trimLeading space_runes s)))"

definition HasPrefix :: "string \<Rightarrow> string \<Rightarrow> bool" where
  "HasPrefix s p = (take (length p) s = p)"

definition HasSuffix :: "string \<Rightarrow> string \<Rightarrow> bool" where
  "HasSuffix s suf = (length suf \<le> length s \<and> drop (length s - length suf) s = suf)"

definition TrimSuffix :: "string \<Rightarrow> string \<Rightarrow> string" where
  "TrimSuffix s suf = (if HasSuffix s suf then take (length s - length suf) s else s)"

text \<open>\<open>path.Split\<close>: cut after the last slash.\<close>

definition path_Split :: "string \<Rightarrow> string \<times> string" where
  "path_Split p = (let i = LastIndex p ''/'' in (take (nat (i + 1)) p, drop (nat (i + 1)) p))"

text \<open>
  \<open>path.Join\<close>: the elements from the first non-empty one on, joined by slashes and
  cleaned; the empty string when every element is empty.
\<close>

fun join_slash :: "string list \<Rightarrow> string" where
  "join_slash [] = []"
| "join_slash [e] = e"
| "join_slash (e # es) = e @ ''/'' @ join_slash es"

definition path_Join :: "runtime \<Rightarrow> string list \<Rightarrow> string" where
  "path_Join rt elems =
     (case dropWhile (\<lambda>e. e = []) elems of [] \<Rightarrow> [] | es \<Rightarrow> path_Clean rt (join_slash es))"

section \<open>The preference parser\<close>

text \<open>
  One round of the inner loop of \<open>ParseAcceptEncoding\<close>: what the token \<open>w\<close> appends to
  \<open>result\<close>. \<open>None\<close> is the \<open>continue\<close> after a weight that does not parse.
\<close>

definition parseToken :: "runtime \<Rightarrow> string \<Rightarrow> AcceptEncoding option" where
  "parseToken rt w =
     (let i = LastIndex w '';q='' in
      if i > 0 then
        (case strconv_ParseFloat rt (TrimSpace (drop (nat (i + 3)) w)) of
           None \<Rightarrow> None
         | Some q \<Rightarrow> Some \<lparr>Algorithm = TrimSpace (take (nat i) w), QualityValue = q\<rparr>)
      else Some \<lparr>Algorithm = TrimSpace w, QualityValue = F64 1\<rparr>)"

fun scanTokens :: "runtime \<Rightarrow> AcceptEncoding list \<Rightarrow> string list \<Rightarrow> AcceptEncoding list" where
  "scanTokens rt result [] = result"
| "scanTokens rt result (w # ws) =
     (case parseToken rt w of
        None \<Rightarrow> scanTokens rt result ws
      | Some a \<Rightarrow> scanTokens rt (result @ [a]) ws)"

fun scanValues :: "runtime \<Rightarrow> AcceptEncoding list \<Rightarrow> string list \<Rightarrow> AcceptEncoding list" where
  "scanValues rt result [] = result"
| "scanValues rt result (v # vs) = scanValues rt (scanTokens rt result (Split v CHR '','')) vs"

text \<open>The \<open>less\<close> function handed to \<open>sort.Slice\<close>.\<close>

definition qualityLess :: "AcceptEncoding \<Rightarrow> AcceptEncoding \<Rightarrow> bool" where
  "qualityLess a b = f64_gt (QualityValue a) (QualityValue b)"

definition ParseAcceptEncoding :: "runtime \<Rightarrow> string list \<Rightarrow> AcceptEncoding list" where
  "ParseAcceptEncoding rt values = sort_Slice rt qualityLess (scanValues rt [] values)"

section \<open>The content indexer\<close>

text \<open>\<open>type option struct\<close>; the name \<open>option\<close> is taken in HOL.\<close>

record server_option =
  compressibleContentTypes :: "string list"
  compressibleContentLength :: int
  notFound :: "ResponseWriter \<Rightarrow> Request \<Rightarrow> ResponseWriter"

definition WithCompressibleContentTypes :: "string list \<Rightarrow> server_option \<Rightarrow> server_option" where
  "WithCompressibleContentTypes types opt = opt\<lparr>compressibleContentTypes := sort types\<rparr>"

definition WithCompressibleContentLength :: "int \<Rightarrow> server_option \<Rightarrow> server_option" where
  "WithCompressibleContentLength n opt = opt\<lparr>compressibleContentLength := n\<rparr>"

definition WithNotFound ::
  "(ResponseWriter \<Rightarrow> Request \<Rightarrow> ResponseWriter) \<Rightarrow> server_option \<Rightarrow> server_option" where
  "WithNotFound h opt = opt\<lparr>notFound := h\<rparr>"

definition default_option :: "runtime \<Rightarrow> server_option" where
  "default_option rt =
     \<lparr>compressibleContentTypes =
        [''application/atom+xml'', ''application/javascript'', ''application/json'',
         ''application/rss+xml'', ''application/x-javascript'', ''image/svg+xml'',
         ''text/css'', ''text/html'', ''text/javascript'', ''text/plain''],
      compressibleContentLength = 1024,
      notFound = http_NotFound rt\<rparr>"

definition applyOptions :: "runtime \<Rightarrow> (server_option \<Rightarrow> server_option) list \<Rightarrow> server_option" where
  "applyOptions rt options = foldl (\<lambda>opt fn. fn opt) (default_option rt) options"

text \<open>
  \<open>sort.Search(n, f)\<close>: the binary search loop of the library, on \<open>int\<close> as in Go, and
  \<open>sort.SearchStrings(a, x) = sort.Search(len(a), func(i) { return a[i] >= x })\<close>.
  Go compares strings byte by byte, as the lexicographic order on \<open>char list\<close> does.
\<close>

function search_loop :: "int \<Rightarrow> int \<Rightarrow> (int \<Rightarrow> bool) \<Rightarrow> int" where
  "search_loop i j f =
     (if i < j then
        (let h = (i + j) div 2 in
         if \<not> f h then search_loop (h + 1) j f else search_loop i h f)
      else i)"
  by pat_completeness auto
termination
  by (relation "measure (\<lambda>(i, j, f). nat (j - i))") auto

declare search_loop.simps [simp del]

definition sort_Search :: "int \<Rightarrow> (int \<Rightarrow> bool) \<Rightarrow> int" where
  "sort_Search n f = search_loop 0 n f"

definition SearchStrings :: "string list \<Rightarrow> string \<Rightarrow> int" where
  "SearchStrings a x = sort_Search (int (length a)) (\<lambda>i. x \<le> a ! nat i)"

text \<open>The condition of the \<open>if\<close> at line 98 of server.go.\<close>

definition compressible :: "server_option \<Rightarrow> string \<Rightarrow> string \<Rightarrow> bool" where
  "compressible option body contentType \<longleftrightarrow>
     compressibleContentLength option \<le> int (length body) \<and> contentType \<noteq> [] \<and>
     0 \<le> SearchStrings (compressibleContentTypes option) contentType"

text \<open>The map literal \<open>compressed\<close>: both streams are computed when the file is indexed.\<close>

definition variants :: "runtime \<Rightarrow> string \<Rightarrow> (string \<rightharpoonup> string)" where
  "variants rt body =
     [''gzip'' \<mapsto> gzip_BestCompression rt body, ''deflate'' \<mapsto> zlib_BestCompression rt body]"

text \<open>
  The three closures that the indexer installs, as values: each keeps what the closure
  captures (\<open>name\<close>, \<open>modtime\<close>, \<open>contentType\<close>, \<open>body\<close> and, for the first, \<open>compressed\<close>).
\<close>

datatype handler =
    Negotiating string time string string "string \<rightharpoonup> string"
  | Direct string time string string
  | IndexRedirect

text \<open>
  The \<open>for ... range\<close> loop of the negotiating handler: the algorithm of the first
  preference that is a key of \<open>compressed\<close>, or the initial \<open>""\<close>.
\<close>

fun firstAccepted :: "(string \<rightharpoonup> string) \<Rightarrow> AcceptEncoding list \<Rightarrow> string" where
  "firstAccepted compressed [] = []"
| "firstAccepted compressed (a # as) =
     (if compressed (Algorithm a) \<noteq> None then Algorithm a else firstAccepted compressed as)"

fun serve :: "runtime \<Rightarrow> handler \<Rightarrow> ResponseWriter \<Rightarrow> Request \<Rightarrow> ResponseWriter" where
  "serve rt (Negotiating name modtime contentType body compressed) w r =
     (let algorithm =
        (if Header_Get (Header r) ''Range'' = []
         then firstAccepted compressed
                (ParseAcceptEncoding rt (Header_Values (Header r) ''Accept-Encoding''))
         else [])
      in
      if algorithm \<noteq> [] then
        (let w1 = w_Set w ''Accept-Ranges'' ''bytes'';
             w2 = w_Set w1 ''Last-Modified'' (http_TimeFormat rt modtime);
             w3 = w_Set w2 ''Content-Encoding'' algorithm;
             w4 = w_Set w3 ''Content-Type'' contentType;
             w5 = WriteHeader w4 200
         in if Method r \<noteq> ''HEAD''
            then Write w5 (case compressed algorithm of None \<Rightarrow> [] | Some b \<Rightarrow> b)
            else w5)
      else http_ServeContent rt (w_Set w ''Content-Type'' contentType) r name modtime body)"
| "serve rt (Direct name modtime contentType body) w r =
     http_ServeContent rt (w_Set w ''Content-Type'' contentType) r name modtime body"
| "serve rt IndexRedirect w r =
     (let newPath = ''./'' @ (if URL_RawQuery r \<noteq> [] then ''?'' @ URL_RawQuery r else [])
      in WriteHeader (w_Set w ''Location'' newPath) 301)"

text \<open>
  What \<open>filepath.Walk\<close> and the operating system give the callback for one entry: the
  path, the result of \<open>filepath.Rel(dir, fpath)\<close> and of \<open>os.ReadFile(fpath)\<close> (\<open>None\<close>
  for an error), and the \<open>fs.FileInfo\<close>. The callback does not look at the error that
  \<open>Walk\<close> passes; the entries are those for which \<open>Walk\<close> has a \<open>FileInfo\<close>.
\<close>

record WalkEntry =
  e_fpath :: string
  e_Rel :: "string option"
  e_IsDir :: bool
  e_Name :: string
  e_ModTime :: time
  e_ReadFile :: "string option"

definition detectContentType :: "runtime \<Rightarrow> string \<Rightarrow> string \<Rightarrow> string" where
  "detectContentType rt fpath body =
     (let contentType = mime_TypeByExtension rt (filepath_Ext rt fpath) in
      if contentType = [] then
        (if 512 < length body then http_DetectContentType rt (take 512 body)
         else http_DetectContentType rt body)
      else contentType)"

definition makeHandler ::
  "runtime \<Rightarrow> server_option \<Rightarrow> string \<Rightarrow> time \<Rightarrow> string \<Rightarrow> string \<Rightarrow> handler" where
  "makeHandler rt option name modtime contentType body =
     (if compressible option body contentType
      then Negotiating name modtime contentType body (variants rt body)
      else Direct name modtime contentType body)"

text \<open>The two assignments to \<open>contents\<close> at the end of the callback.\<close>

definition indexDir :: "string \<Rightarrow> string" where
  "indexDir dir = (if dir \<noteq> ''/'' \<and> HasSuffix dir ''/'' then TrimSuffix dir ''/'' else dir)"

definition install :: "(string \<rightharpoonup> handler) \<Rightarrow> string \<Rightarrow> handler \<Rightarrow> (string \<rightharpoonup> handler)" where
  "install contents upath h =
     (case path_Split upath of
        (dir, filename) \<Rightarrow>
          if filename = ''index.html''
          then (contents(indexDir dir \<mapsto> h))(upath \<mapsto> IndexRedirect)
          else contents(upath \<mapsto> h))"

definition entryPath :: "runtime \<Rightarrow> string \<Rightarrow> string" where
  "entryPath rt relpath = path_Join rt [''/'', filepath_ToSlash rt relpath]"

definition visit ::
  "runtime \<Rightarrow> server_option \<Rightarrow> (string \<rightharpoonup> handler) \<Rightarrow> WalkEntry \<Rightarrow> (string \<rightharpoonup> handler)" where
  "visit rt option contents e =
     (case e_Rel e of
        None \<Rightarrow> contents
      | Some relpath \<Rightarrow>
          if e_IsDir e then contents
          else
            (case e_ReadFile e of
               None \<Rightarrow> contents
             | Some body \<Rightarrow>
                 install contents (entryPath rt relpath)
                   (makeHandler rt option (e_Name e) (e_ModTime e)
                      (detectContentType rt (e_fpath e) body) body)))"

definition walk :: "runtime \<Rightarrow> server_option \<Rightarrow> WalkEntry list \<Rightarrow> (string \<rightharpoonup> handler)" where
  "walk rt option entries = foldl (visit rt option) Map.empty entries"

section \<open>The dispatcher\<close>

text \<open>
  The handler that \<open>FileServer\<close> returns, over the table and the options it captured.
  \<open>leadingSlash\<close> is its first \<open>if\<close>: the path gets a leading slash, in the request
  too.
\<close>

definition leadingSlash :: "Request \<Rightarrow> Request" where
  "leadingSlash r =
     (if \<not> HasPrefix (URL_Path r) ''/'' then r\<lparr>URL_Path := ''/'' @ URL_Path r\<rparr> else r)"

definition ServeHTTP ::
  "runtime \<Rightarrow> server_option \<Rightarrow> (string \<rightharpoonup> handler) \<Rightarrow> ResponseWriter \<Rightarrow> Request \<Rightarrow> ResponseWriter" where
  "ServeHTTP rt option contents w r =
     (let r' = leadingSlash r;
          upath = path_Clean rt (URL_Path r')
      in case contents upath of
           None \<Rightarrow> notFound option w r'
         | Some next \<Rightarrow> serve rt next (w_Add w ''Vary'' ''Accept-Encoding'') r')"

definition FileServer ::
  "runtime \<Rightarrow> WalkEntry list \<Rightarrow> (server_option \<Rightarrow> server_option) list \<Rightarrow>
   ResponseWriter \<Rightarrow> Request \<Rightarrow> ResponseWriter" where
  "FileServer rt entries options =
     (let option = applyOptions rt options
      in ServeHTTP rt option (walk rt option entries))"

section \<open>Contracts of the library, and properties of a preference order\<close>

text \<open>
  A strict weak order on a set: asymmetric and negatively transitive. This is what
  \<open>sort.Slice\<close> asks of its \<open>less\<close> function.
\<close>

definition strictWeakOn :: "'a set \<Rightarrow> ('a \<Rightarrow> 'a \<Rightarrow> bool) \<Rightarrow> bool" where
  "strictWeakOn S lt \<longleftrightarrow>
     (\<forall>a\<in>S. \<forall>b\<in>S. lt a b \<longrightarrow> \<not> lt b a) \<and>
     (\<forall>a\<in>S. \<forall>b\<in>S. \<forall>c\<in>S. lt a c \<longrightarrow> lt a b \<or> lt b c)"

text \<open>
  The documented contract of \<open>sort.Slice\<close>: it permutes the slice (it only swaps
  elements), and the result is ordered by \<open>less\<close> when \<open>less\<close> is a strict weak order on
  the elements. The documentation adds that the sort is not guaranteed to be stable.
\<close>

definition sortsSlices :: "runtime \<Rightarrow> bool" where
  "sortsSlices rt \<longleftrightarrow>
     (\<forall>lt xs. mset (sort_Slice rt lt xs) = mset xs) \<and>
     (\<forall>lt xs. strictWeakOn (set xs) lt \<longrightarrow>
        sorted_wrt (\<lambda>a b. \<not> lt b a) (sort_Slice rt lt xs))"

text \<open>The comparison \<open>x >= y\<close> of IEEE 754.\<close>

definition f64_ge :: "float64 \<Rightarrow> float64 \<Rightarrow> bool" where
  "f64_ge x y \<longleftrightarrow> f64_gt x y \<or> (x = y \<and> x \<noteq> NaN)"

text \<open>A list of preferences is in descending order of weight.\<close>

definition descending :: "AcceptEncoding list \<Rightarrow> bool" where
  "descending ps = sorted_wrt (\<lambda>a b. f64_ge (QualityValue a) (QualityValue b)) ps"

text \<open>
  \<open>ys\<close> keeps the entries of equal weight in the order they have in \<open>xs\<close>: for every
  weight, the entries of that weight are the same list in both. NaN is left out: it is
  equal to nothing, itself included.
\<close>

definition keepsTies :: "AcceptEncoding list \<Rightarrow> AcceptEncoding list \<Rightarrow> bool" where
  "keepsTies xs ys \<longleftrightarrow>
     (\<forall>q. q \<noteq> NaN \<longrightarrow>
        filter (\<lambda>a. QualityValue a = q) ys = filter (\<lambda>a. QualityValue a = q) xs)"

text \<open>
  \<open>http.ServeContent\<close> sets no \<open>Content-Encoding\<close> header, and leaves the \<open>Vary\<close>
  header as it finds it.
\<close>

definition addsNoEncoding :: "runtime \<Rightarrow> bool" where
  "addsNoEncoding rt \<longleftrightarrow>
     (\<forall>w r name modtime body.
        resp_Header w ''Content-Encoding'' = None \<longrightarrow>
        resp_Header (http_ServeContent rt w r name modtime body) ''Content-Encoding'' = None)"

definition keepsVary :: "runtime \<Rightarrow> bool" where
  "keepsVary rt \<longleftrightarrow>
     (\<forall>w r name modtime body.
        resp_Header (http_ServeContent rt w r name modtime body) ''Vary'' = resp_Header w ''Vary'')"

section \<open>Library routines, for evaluating the model\<close>

text \<open>
  The insertion sort of package \<open>sort\<close>:
  \<^verbatim>\<open>for i := a + 1; i < b; i++ { for j := i; j > a && less(j, j-1); j-- { swap(j, j-1) } }\<close>.
  The prefix already sorted is held in reverse, so that \<open>data[j-1]\<close> is its head;
  \<open>sinkLeft\<close> is the inner loop.
\<close>

fun sinkLeft :: "('a \<Rightarrow> 'a \<Rightarrow> bool) \<Rightarrow> 'a \<Rightarrow> 'a list \<Rightarrow> 'a list" where
  "sinkLeft lt x [] = [x]"
| "sinkLeft lt x (y # ys) = (if lt x y then y # sinkLeft lt x ys else x # y # ys)"

definition insertionSort :: "('a \<Rightarrow> 'a \<Rightarrow> bool) \<Rightarrow> 'a list \<Rightarrow> 'a list" where
  "insertionSort lt xs = rev (foldl (\<lambda>pre x. sinkLeft lt x pre) [] xs)"

text \<open>
  Up to Go 1.18, \<open>sort.Slice\<close> on a slice of at most 12 elements runs one pass of Shell
  sort with gap 6 and then the insertion sort:
  \<^verbatim>\<open>for i := a + 6; i < b; i++ { if less(i, i-6) { swap(i, i-6) } }\<close>.
  From Go 1.19 on it runs the insertion sort alone on such a slice. On at most 6
  elements both are the insertion sort.
\<close>

definition gapPass :: "('a \<Rightarrow> 'a \<Rightarrow> bool) \<Rightarrow> 'a list \<Rightarrow> 'a list" where
  "gapPass lt xs =
     foldl (\<lambda>ys i. if lt (ys ! i) (ys ! (i - 6)) then ys[i := ys ! (i - 6), i - 6 := ys ! i] else ys)
       xs [6..<length xs]"

definition shellInsertionSort :: "('a \<Rightarrow> 'a \<Rightarrow> bool) \<Rightarrow> 'a list \<Rightarrow> 'a list" where
  "shellInsertionSort lt xs = insertionSort lt (gapPass lt xs)"

text \<open>
  \<open>path.Clean\<close> on a rooted path: empty and \<open>.\<close> elements are dropped, \<open>..\<close> removes
  the element before it (and nothing at the root).
\<close>

fun cleanElems :: "string list \<Rightarrow> string list \<Rightarrow> string list" where
  "cleanElems acc [] = rev acc"
| "cleanElems acc (e # es) =
     (if e = [] \<or> e = ''.'' then cleanElems acc es
      else if e = ''..'' then cleanElems (tl acc) es
      else cleanElems (e # acc) es)"

definition cleanRooted :: "string \<Rightarrow> string" where
  "cleanRooted p = ''/'' @ join_slash (cleanElems [] (Split p CHR ''/''))"

text \<open>\<open>filepath.Ext\<close>: from the last dot of the last element on.\<close>

fun extFrom :: "string \<Rightarrow> string \<Rightarrow> string" where
  "extFrom [] acc = []"
| "extFrom (c # cs) acc =
     (if c = CHR ''/'' then [] else if c = CHR ''.'' then c # acc else extFrom cs (c # acc))"

definition pathExt :: "string \<Rightarrow> string" where
  "pathExt p = extFrom (rev p) []"

text \<open>
  A runtime to evaluate the model with. \<open>ParseFloat\<close> and \<open>TypeByExtension\<close> are tables
  of what the library returns for the strings used below (every other string is
  rejected, as \<open>abc\<close> is by the library); the compressors frame the input behind the
  first two bytes of the real streams; the content responder sends the whole content.
\<close>

definition exampleFloats :: "(string \<times> float64) list" where
  "exampleFloats =
     [(''0'', F64 0), (''0.25'', F64 (1 / 4)), (''0.5'', F64 (1 / 2)), (''0.75'', F64 (3 / 4)),
      (''1'', F64 1), (''1.0'', F64 1), (''NaN'', NaN)]"

definition exampleTypes :: "(string \<times> string) list" where
  "exampleTypes =
     [(''.html'', ''text/html; charset=utf-8''), (''.css'', ''text/css; charset=utf-8''),
      (''.json'', ''application/json''), (''.png'', ''image/png'')]"

definition exampleNotFound :: "ResponseWriter \<Rightarrow> Request \<Rightarrow> ResponseWriter" where
  "exampleNotFound w r =
     Write (WriteHeader (w_Set (w_Set w ''Content-Type'' ''text/plain; charset=utf-8'')
                           ''X-Content-Type-Options'' ''nosniff'') 404)
       (''404 page not found'' @ [CHR 0x0A])"

definition exampleRuntime :: runtime where
  "exampleRuntime =
     \<lparr>strconv_ParseFloat = map_of exampleFloats,
      sort_Slice = insertionSort,
      http_ServeContent = (\<lambda>w r name modtime body. Write w body),
      http_TimeFormat = (\<lambda>t. if t = 0 then ''Thu, 01 Jan 1970 00:00:00 GMT'' else []),
      path_Clean = cleanRooted,
      filepath_ToSlash = (\<lambda>p. p),
      filepath_Ext = pathExt,
      mime_TypeByExtension = (\<lambda>ext. case map_of exampleTypes ext of None \<Rightarrow> [] | Some t \<Rightarrow> t),
      http_DetectContentType = (\<lambda>body. ''application/octet-stream''),
      gzip_BestCompression = (\<lambda>body. [CHR 0x1F, CHR 0x8B] @ body),
      zlib_BestCompression = (\<lambda>body. [CHR 0x78, CHR 0xDA] @ body),
      http_NotFound = exampleNotFound\<rparr>"

text \<open>The same runtime with the \<open>sort.Slice\<close> of Go 1.18.\<close>

definition exampleRuntime118 :: runtime where
  "exampleRuntime118 = exampleRuntime\<lparr>sort_Slice := shellInsertionSort\<rparr>"

definition unframe :: "string \<Rightarrow> string \<Rightarrow> string option" where
  "unframe magic s = (if take (length magic) s = magic then Some (drop (length magic) s) else None)"

definition emptyWriter :: ResponseWriter where
  "emptyWriter = \<lparr>resp_Header = Map.empty, resp_status = None, resp_body = []\<rparr>"

text \<open>Requests, a compressible resource and a small directory tree to evaluate with.\<close>

definition request :: "string \<Rightarrow> string \<Rightarrow> string \<Rightarrow> (string \<times> string list) list \<Rightarrow> Request" where
  "request m p q hs = \<lparr>Method = m, URL_Path = p, URL_RawQuery = q, Header = map_of hs\<rparr>"

definition exampleBody :: string where
  "exampleBody = ''<svg></svg>''"

definition exampleHandler :: handler where
  "exampleHandler =
     Negotiating ''a.svg'' 0 ''image/svg+xml'' exampleBody (variants exampleRuntime exampleBody)"

definition exampleDir :: WalkEntry where
  "exampleDir = \<lparr>e_fpath = ''site/docs'', e_Rel = Some ''docs'', e_IsDir = True,
     e_Name = ''docs'', e_ModTime = 0, e_ReadFile = None\<rparr>"

definition exampleIndex :: WalkEntry where
  "exampleIndex = \<lparr>e_fpath = ''site/docs/index.html'', e_Rel = Some ''docs/index.html'',
     e_IsDir = False, e_Name = ''index.html'', e_ModTime = 0, e_ReadFile = Some ''<html></html>''\<rparr>"

definition examplePng :: WalkEntry where
  "examplePng = \<lparr>e_fpath = ''site/logo.png'', e_Rel = Some ''logo.png'',
     e_IsDir = False, e_Name = ''logo.png'', e_ModTime = 0,
     e_ReadFile = Some (replicate 2048 (CHR ''x''))\<rparr>"

section \<open>Lemmas about the loops and the library routines\<close>

subsection \<open>The parser's loops\<close>

lemma scanTokens_eq:
  "scanTokens rt result ws = result @ List.map_filter (parseToken rt) ws"
  by (induction ws arbitrary: result) (auto simp: List.map_filter_simps split: option.splits)

lemma map_filter_app:
  "List.map_filter f (xs @ ys) = List.map_filter f xs @ List.map_filter f ys"
  by (simp add: List.map_filter_def)

lemma scanValues_eq:
  "scanValues rt result vs =
     result @ List.map_filter (parseToken rt) (concat (map (\<lambda>v. Split v CHR '','') vs))"
  by (induction vs arbitrary: result) (auto simp: scanTokens_eq List.map_filter_simps map_filter_app)

lemma parseToken_unparsable:
  "0 < LastIndex w '';q='' \<Longrightarrow>
   strconv_ParseFloat rt (TrimSpace (drop (nat (LastIndex w '';q='' + 3)) w)) = None \<Longrightarrow>
   parseToken rt w = None"
  by (simp add: parseToken_def Let_def)

subsection \<open>Trimming, searching and splitting\<close>

lemma trimLeading_Nil: "trimLeading ps [] = []"
proof -
  have "find (\<lambda>p. p \<noteq> [] \<and> take (length p) [] = p) ps = None"
    by (auto simp: find_None_iff)
  then show ?thesis by (subst trimLeading.simps) simp
qed

lemma TrimSpace_Nil: "TrimSpace [] = []"
  by (simp add: TrimSpace_def trimLeading_Nil)

lemma trimLeading_spaces: "trimLeading space_runes (replicate n (CHR 0x20)) = []"
proof (induction n)
  case 0
  show ?case by (simp add: trimLeading_Nil)
next
  case (Suc n)
  have "find (\<lambda>p. p \<noteq> [] \<and> take (length p) (replicate (Suc n) (CHR 0x20)) = p) space_runes
        = Some [CHR 0x20]"
    by (simp add: space_runes_def)
  then show ?case using Suc by (subst trimLeading.simps) simp
qed

lemma TrimSpace_spaces: "TrimSpace (replicate n (CHR 0x20)) = []"
  by (simp add: TrimSpace_def trimLeading_spaces trimLeading_Nil)

lemma lastIndexFrom_absent:
  "hd sub \<notin> set s \<Longrightarrow> sub \<noteq> [] \<Longrightarrow> lastIndexFrom s sub k = -1"
proof (induction k)
  case 0
  have "take (length sub) s \<noteq> sub"
  proof
    assume "take (length sub) s = sub"
    then have "set sub \<subseteq> set s" by (metis set_take_subset)
    with 0 show False by (cases sub) auto
  qed
  then show ?case by simp
next
  case (Suc k)
  have "take (length sub) (drop (Suc k) s) \<noteq> sub"
  proof
    assume "take (length sub) (drop (Suc k) s) = sub"
    then have "set sub \<subseteq> set (drop (Suc k) s)" by (metis set_take_subset)
    then have "set sub \<subseteq> set s" using set_drop_subset by fastforce
    with Suc.prems show False by (cases sub) auto
  qed
  with Suc show ?case by simp
qed

lemma LastIndex_absent: "hd sub \<notin> set s \<Longrightarrow> sub \<noteq> [] \<Longrightarrow> LastIndex s sub = -1"
  by (simp add: LastIndex_def lastIndexFrom_absent)

lemma Split_no_sep: "sep \<notin> set s \<Longrightarrow> Split s sep = [s]"
  by (induction s) auto

lemma parseToken_spaces:
  "parseToken rt (replicate n (CHR 0x20)) = Some \<lparr>Algorithm = [], QualityValue = F64 1\<rparr>"
proof -
  have "LastIndex (replicate n (CHR 0x20)) '';q='' = -1"
    by (rule LastIndex_absent) auto
  then show ?thesis by (simp add: parseToken_def TrimSpace_spaces)
qed

lemma path_Split_append: "path_Split p = (d, f) \<Longrightarrow> p = d @ f"
  by (auto simp: path_Split_def Let_def)

subsection \<open>The sort routines keep the contract of \<open>sort.Slice\<close>\<close>

lemma mset_sinkLeft: "mset (sinkLeft lt x ys) = add_mset x (mset ys)"
  by (induction ys) auto

lemma mset_foldl_sinkLeft:
  "mset (foldl (\<lambda>pre x. sinkLeft lt x pre) acc xs) = mset acc + mset xs"
  by (induction xs arbitrary: acc) (auto simp: mset_sinkLeft)

lemma mset_insertionSort: "mset (insertionSort lt xs) = mset xs"
  by (simp add: insertionSort_def mset_foldl_sinkLeft)

lemma set_sinkLeft: "set (sinkLeft lt x ys) = insert x (set ys)"
  by (induction ys) auto

lemma sorted_sinkLeft:
  assumes "strictWeakOn S lt" "x \<in> S" "set ys \<subseteq> S" "sorted_wrt (\<lambda>a b. \<not> lt a b) ys"
  shows "sorted_wrt (\<lambda>a b. \<not> lt a b) (sinkLeft lt x ys)"
  using assms(2-4)
proof (induction ys)
  case Nil
  then show ?case by simp
next
  case (Cons y ys)
  show ?case
  proof (cases "lt x y")
    case True
    have "\<not> lt y x" using assms(1) Cons.prems True by (auto simp: strictWeakOn_def)
    with True Cons show ?thesis by (auto simp: set_sinkLeft)
  next
    case False
    have "\<not> lt x z" if "z \<in> set ys" for z
    proof
      assume "lt x z"
      moreover have "x \<in> S" "y \<in> S" "z \<in> S" using Cons.prems that by auto
      ultimately have "lt x y \<or> lt y z" using assms(1) unfolding strictWeakOn_def by blast
      with False Cons.prems(3) that show False by auto
    qed
    with False Cons.prems show ?thesis by auto
  qed
qed

lemma sorted_foldl_sinkLeft:
  assumes "strictWeakOn S lt"
  shows "set xs \<subseteq> S \<Longrightarrow> set acc \<subseteq> S \<Longrightarrow> sorted_wrt (\<lambda>a b. \<not> lt a b) acc \<Longrightarrow>
         sorted_wrt (\<lambda>a b. \<not> lt a b) (foldl (\<lambda>pre x. sinkLeft lt x pre) acc xs)"
proof (induction xs arbitrary: acc)
  case Nil
  then show ?case by simp
next
  case (Cons x xs)
  have "sorted_wrt (\<lambda>a b. \<not> lt a b) (sinkLeft lt x acc)"
    using sorted_sinkLeft[OF assms, of x acc] Cons.prems by simp
  moreover have "set (sinkLeft lt x acc) \<subseteq> S" using Cons.prems by (simp add: set_sinkLeft)
  ultimately show ?case using Cons.IH[of "sinkLeft lt x acc"] Cons.prems by simp
qed

lemma sorted_insertionSort:
  assumes "strictWeakOn (set xs) lt"
  shows "sorted_wrt (\<lambda>a b. \<not> lt b a) (insertionSort lt xs)"
proof -
  have "sorted_wrt (\<lambda>a b. \<not> lt a b) (foldl (\<lambda>pre x. sinkLeft lt x pre) [] xs)"
    using sorted_foldl_sinkLeft[OF assms, of xs "[]"] by simp
  then show ?thesis by (simp add: insertionSort_def sorted_wrt_rev)
qed

lemma gapPass_steps:
  "\<forall>i\<in>set is. i < length ys \<Longrightarrow>
   mset (foldl (\<lambda>ys i. if lt (ys ! i) (ys ! (i - 6)) then ys[i := ys ! (i - 6), i - 6 := ys ! i] else ys) ys is) = mset ys"
proof (induction "is" arbitrary: ys)
  case Nil
  then show ?case by simp
next
  case (Cons i "is")
  let ?ys' = "if lt (ys ! i) (ys ! (i - 6)) then ys[i := ys ! (i - 6), i - 6 := ys ! i] else ys"
  have len: "length ?ys' = length ys" by simp
  have i: "i < length ys" "i - 6 < length ys" using Cons.prems by auto
  have m: "mset ?ys' = mset ys" using i by (simp add: mset_swap)
  have "\<forall>j\<in>set is. j < length ?ys'" using Cons.prems len by simp
  from Cons.IH[OF this] m show ?case by simp
qed

lemma mset_gapPass: "mset (gapPass lt xs) = mset xs"
  unfolding gapPass_def by (rule gapPass_steps) simp

lemma mset_shellInsertionSort: "mset (shellInsertionSort lt xs) = mset xs"
  by (simp add: shellInsertionSort_def mset_insertionSort mset_gapPass)

lemma sorted_shellInsertionSort:
  assumes "strictWeakOn (set xs) lt"
  shows "sorted_wrt (\<lambda>a b. \<not> lt b a) (shellInsertionSort lt xs)"
proof -
  have "set (gapPass lt xs) = set xs" using mset_gapPass[of lt xs] by (metis set_mset_mset)
  with assms show ?thesis unfolding shellInsertionSort_def by (simp add: sorted_insertionSort)
qed

lemma sortsSlices_example: "sortsSlices exampleRuntime"
  by (simp add: sortsSlices_def exampleRuntime_def mset_insertionSort sorted_insertionSort)

lemma sortsSlices_example118: "sortsSlices exampleRuntime118"
  by (simp add: sortsSlices_def exampleRuntime118_def exampleRuntime_def
      mset_shellInsertionSort sorted_shellInsertionSort)

lemma sort_Slice_Nil: "sortsSlices rt \<Longrightarrow> sort_Slice rt lt [] = []"
  by (metis mset_zero_iff sortsSlices_def)

lemma sort_Slice_single: "sortsSlices rt \<Longrightarrow> sort_Slice rt lt [x] = [x]"
proof -
  assume "sortsSlices rt"
  then have "mset (sort_Slice rt lt [x]) = {#x#}" by (simp add: sortsSlices_def)
  then show ?thesis by (simp add: mset_single_iff_right)
qed

lemma ParseAcceptEncoding_blank:
  assumes "sortsSlices rt"
  shows "ParseAcceptEncoding rt [replicate n (CHR 0x20)] = [\<lparr>Algorithm = [], QualityValue = F64 1\<rparr>]"
proof -
  have "Split (replicate n (CHR 0x20)) CHR '','' = [replicate n (CHR 0x20)]"
    by (rule Split_no_sep) auto
  then show ?thesis
    using assms by (simp add: ParseAcceptEncoding_def parseToken_spaces sort_Slice_single)
qed

subsection \<open>Comparing weights\<close>

lemma f64_total: "x \<noteq> NaN \<Longrightarrow> y \<noteq> NaN \<Longrightarrow> \<not> f64_gt y x \<Longrightarrow> f64_ge x y"
  by (cases x; cases y) (auto simp: f64_ge_def)

lemma f64_gt_asym: "f64_gt x y \<Longrightarrow> \<not> f64_gt y x"
  by (cases x; cases y) auto

lemma f64_gt_negtrans:
  "y \<noteq> NaN \<Longrightarrow> f64_gt x z \<Longrightarrow> f64_gt x y \<or> f64_gt y z"
  by (cases x; cases y; cases z) auto

lemma qualityLess_strictWeak:
  "\<forall>a\<in>S. QualityValue a \<noteq> NaN \<Longrightarrow> strictWeakOn S qualityLess"
  unfolding strictWeakOn_def qualityLess_def
  using f64_gt_asym f64_gt_negtrans by blast

subsection \<open>The insertion sort keeps ties\<close>

text \<open>
  The insertion sort never swaps two entries of equal weight, so on the slices where
  \<open>sort.Slice\<close> is the insertion sort (at most 12 elements from Go 1.19 on) ties keep
  their input order. The contract of \<open>sort.Slice\<close> does not promise it.
\<close>

lemma filter_sinkLeft:
  "\<forall>y\<in>set ys. P x \<and> P y \<longrightarrow> \<not> lt x y \<Longrightarrow>
   filter P (sinkLeft lt x ys) = (if P x then x # filter P ys else filter P ys)"
  by (induction ys) auto

lemma filter_foldl_sinkLeft:
  "\<forall>x\<in>set xs \<union> set acc. \<forall>y\<in>set xs \<union> set acc. P x \<and> P y \<longrightarrow> \<not> lt x y \<Longrightarrow>
   filter P (foldl (\<lambda>pre x. sinkLeft lt x pre) acc xs) = rev (filter P xs) @ filter P acc"
proof (induction xs arbitrary: acc)
  case Nil
  then show ?case by simp
next
  case (Cons x xs)
  have f: "filter P (sinkLeft lt x acc) = (if P x then x # filter P acc else filter P acc)"
    using Cons.prems by (intro filter_sinkLeft) auto
  have "\<forall>a\<in>set xs \<union> set (sinkLeft lt x acc). \<forall>b\<in>set xs \<union> set (sinkLeft lt x acc).
          P a \<and> P b \<longrightarrow> \<not> lt a b"
    using Cons.prems by (auto simp: set_sinkLeft)
  from Cons.IH[OF this] f show ?case by simp
qed

lemma insertionSort_keepsTies: "keepsTies xs (insertionSort qualityLess xs)"
proof -
  have "filter (\<lambda>a. QualityValue a = q) (insertionSort qualityLess xs) =
        filter (\<lambda>a. QualityValue a = q) xs" for q
  proof -
    have "\<forall>x\<in>set xs \<union> set []. \<forall>y\<in>set xs \<union> set [].
            QualityValue x = q \<and> QualityValue y = q \<longrightarrow> \<not> qualityLess x y"
      using f64_gt_asym by (auto simp: qualityLess_def)
    from filter_foldl_sinkLeft[OF this] show ?thesis
      by (simp add: insertionSort_def flip: rev_filter)
  qed
  then show ?thesis by (simp add: keepsTies_def)
qed

subsection \<open>The order and the emptiness of the parser's result\<close>

lemma ParseAcceptEncoding_mset:
  "sortsSlices rt \<Longrightarrow> mset (ParseAcceptEncoding rt vs) = mset (scanValues rt [] vs)"
  by (simp add: ParseAcceptEncoding_def sortsSlices_def)

lemma ParseAcceptEncoding_descending:
  assumes "sortsSlices rt"
    and "\<forall>a\<in>set (scanValues rt [] vs). QualityValue a \<noteq> NaN"
  shows "descending (ParseAcceptEncoding rt vs)"
proof -
  let ?xs = "scanValues rt [] vs"
  let ?ys = "sort_Slice rt qualityLess ?xs"
  have "mset ?ys = mset ?xs" using assms(1) by (simp add: sortsSlices_def)
  then have s: "set ?ys = set ?xs" by (metis set_mset_mset)
  have "strictWeakOn (set ?xs) qualityLess"
    using assms(2) by (rule qualityLess_strictWeak)
  then have "sorted_wrt (\<lambda>a b. \<not> qualityLess b a) ?ys"
    using assms(1) by (simp add: sortsSlices_def)
  then have "sorted_wrt (\<lambda>a b. f64_ge (QualityValue a) (QualityValue b)) ?ys"
  proof (rule sorted_wrt_mono_rel[rotated])
    fix a b
    assume "a \<in> set ?ys" "b \<in> set ?ys" "\<not> qualityLess b a"
    then show "f64_ge (QualityValue a) (QualityValue b)"
      using assms(2) s by (auto simp: qualityLess_def intro: f64_total)
  qed
  then show ?thesis by (simp add: ParseAcceptEncoding_def descending_def)
qed

lemma parseToken_None_iff:
  "parseToken rt w = None \<longleftrightarrow>
     0 < LastIndex w '';q='' \<and>
     strconv_ParseFloat rt (TrimSpace (drop (nat (LastIndex w '';q='' + 3)) w)) = None"
  by (auto simp: parseToken_def Let_def split: option.splits)

lemma parseToken_unweighted:
  "LastIndex w '';q='' \<le> 0 \<Longrightarrow>
   parseToken rt w = Some \<lparr>Algorithm = TrimSpace w, QualityValue = F64 1\<rparr>"
  by (simp add: parseToken_def Let_def)

lemma map_filter_Nil_iff: "List.map_filter f xs = [] \<longleftrightarrow> (\<forall>x\<in>set xs. f x = None)"
  by (induction xs) (auto simp: List.map_filter_simps split: option.splits)

lemma ParseAcceptEncoding_Nil_iff:
  assumes "sortsSlices rt"
  shows "ParseAcceptEncoding rt vs = [] \<longleftrightarrow>
         (\<forall>w\<in>set (concat (map (\<lambda>v. Split v CHR '','') vs)). parseToken rt w = None)"
proof -
  have "ParseAcceptEncoding rt vs = [] \<longleftrightarrow> mset (ParseAcceptEncoding rt vs) = {#}" by simp
  also have "\<dots> \<longleftrightarrow> scanValues rt [] vs = []"
    using ParseAcceptEncoding_mset[OF assms, of vs] by simp
  also have "\<dots> \<longleftrightarrow> (\<forall>w\<in>set (concat (map (\<lambda>v. Split v CHR '','') vs)). parseToken rt w = None)"
    by (simp only: scanValues_eq append_Nil map_filter_Nil_iff)
  finally show ?thesis .
qed

lemma first_match_maximal:
  assumes "find P ps = Some a"
    and "sorted_wrt (\<lambda>x y. f64_ge (QualityValue x) (QualityValue y)) ps"
    and "\<forall>x\<in>set ps. QualityValue x \<noteq> NaN"
    and "b \<in> set ps" and "P b"
  shows "f64_ge (QualityValue a) (QualityValue b)"
proof -
  from assms(1) obtain i where i: "i < length ps" "P (ps ! i)" "a = ps ! i" "\<forall>j<i. \<not> P (ps ! j)"
    by (auto simp: find_Some_iff)
  from assms(4) obtain k where k: "k < length ps" "b = ps ! k" by (auto simp: in_set_conv_nth)
  have "\<not> k < i" using i(4) k(2) assms(5) by auto
  then consider "k = i" | "i < k" by linarith
  then show ?thesis
  proof cases
    case 1
    then have "b = a" using i k by simp
    moreover have "QualityValue a \<noteq> NaN" using assms(3) i by auto
    ultimately show ?thesis by (simp add: f64_ge_def)
  next
    case 2
    then show ?thesis using assms(2) i(3) k by (auto simp: sorted_wrt_iff_nth_less)
  qed
qed

subsection \<open>The binary search never returns a negative index\<close>

lemma search_loop_lower: "i \<le> search_loop i j f"
proof (induction i j f rule: search_loop.induct)
  case (1 i j f)
  show ?case
  proof (cases "i < j")
    case True
    then show ?thesis using 1 by (subst search_loop.simps) (auto simp: Let_def)
  next
    case False
    then show ?thesis by (subst search_loop.simps) simp
  qed
qed

lemma SearchStrings_nonneg: "0 \<le> SearchStrings a x"
  unfolding SearchStrings_def sort_Search_def by (rule search_loop_lower)

text \<open>
  So the third conjunct of the condition at line 98 is always true: whether a file is
  compressed does not depend on the configured list of content types.
\<close>

lemma compressible_iff:
  "compressible option body contentType \<longleftrightarrow>
     compressibleContentLength option \<le> int (length body) \<and> contentType \<noteq> []"
  by (simp add: compressible_def SearchStrings_nonneg)

subsection \<open>Headers, handlers and the table\<close>

lemma header_simps:
  "resp_Header (w_Set w k v) k' = (if k' = k then Some [v] else resp_Header w k')"
  "resp_status (w_Set w k v) = resp_status w"
  "resp_body (w_Set w k v) = resp_body w"
  "resp_Header (WriteHeader w c) = resp_Header w"
  "resp_body (WriteHeader w c) = resp_body w"
  "resp_status (WriteHeader w c) = (if resp_status w = None then Some c else resp_status w)"
  "resp_Header (Write w bs) = resp_Header w"
  "resp_body (Write w bs) = resp_body w @ bs"
  "resp_status (Write w bs) = (if resp_status w = None then Some 200 else resp_status w)"
  by (auto simp: w_Set_def Header_Set_def WriteHeader_def Write_def Let_def)

lemma w_Add_simps:
  "resp_Header (w_Add w k v) k' = (if k' = k then Some (Header_Values (resp_Header w) k @ [v]) else resp_Header w k')"
  "resp_status (w_Add w k v) = resp_status w"
  "resp_body (w_Add w k v) = resp_body w"
  by (auto simp: w_Add_def Header_Add_def)

lemma firstAccepted_none:
  "\<forall>a\<in>set ps. compressed (Algorithm a) = None \<Longrightarrow> firstAccepted compressed ps = []"
  by (induction ps) auto

lemma firstAccepted_find:
  "find (\<lambda>a. compressed (Algorithm a) \<noteq> None) ps = Some a \<Longrightarrow>
   firstAccepted compressed ps = Algorithm a"
  by (induction ps) (auto split: if_splits)

lemma dom_variants: "dom (variants rt body) = {''gzip'', ''deflate''}"
  by (auto simp: variants_def)

lemma variants_cases:
  "variants rt body k \<noteq> None \<Longrightarrow> k = ''gzip'' \<or> k = ''deflate''"
  by (auto simp: variants_def split: if_splits)

lemma serve_miss:
  assumes "firstAccepted compressed
             (ParseAcceptEncoding rt (Header_Values (Header r) ''Accept-Encoding'')) = [] \<or>
           Header_Get (Header r) ''Range'' \<noteq> []"
  shows "serve rt (Negotiating name modtime contentType body compressed) w r =
         http_ServeContent rt (w_Set w ''Content-Type'' contentType) r name modtime body"
  using assms by (auto simp: Let_def)

lemma serve_hit:
  assumes "Header_Get (Header r) ''Range'' = []"
    and "firstAccepted compressed
           (ParseAcceptEncoding rt (Header_Values (Header r) ''Accept-Encoding'')) = alg"
    and "alg \<noteq> []"
  shows "serve rt (Negotiating name modtime contentType body compressed) w r =
     (let w5 = WriteHeader (w_Set (w_Set (w_Set (w_Set w ''Accept-Ranges'' ''bytes'')
                  ''Last-Modified'' (http_TimeFormat rt modtime))
                  ''Content-Encoding'' alg) ''Content-Type'' contentType) 200
      in if Method r \<noteq> ''HEAD''
         then Write w5 (case compressed alg of None \<Rightarrow> [] | Some b \<Rightarrow> b) else w5)"
  using assms by (simp add: Let_def)

lemma serve_Vary: "keepsVary rt \<Longrightarrow> resp_Header (serve rt h w r) ''Vary'' = resp_Header w ''Vary''"
  by (cases h) (auto simp: Let_def header_simps keepsVary_def)

lemma foldl_visit_untouched:
  "\<forall>e'\<in>set post. \<forall>c. visit rt option c e' k = c k \<Longrightarrow>
   foldl (visit rt option) c post k = c k"
  by (induction post arbitrary: c) auto

lemma indexDir_root: "indexDir ''/'' = ''/''"
  by (simp add: indexDir_def)

lemma indexDir_strip: "d \<noteq> [] \<Longrightarrow> indexDir (d @ ''/'') = d"
  by (auto simp: indexDir_def HasSuffix_def TrimSuffix_def)

lemma install_index:
  assumes "path_Split upath = (dir, ''index.html'')"
  shows "install contents upath h (indexDir dir) = Some h"
    and "install contents upath h upath = Some IndexRedirect"
proof -
  have u: "upath = dir @ ''index.html''" using assms by (rule path_Split_append)
  have "length (indexDir dir) \<le> length dir"
    by (simp add: indexDir_def TrimSuffix_def)
  then have ne: "indexDir dir \<noteq> upath" unfolding u by auto
  show "install contents upath h (indexDir dir) = Some h"
    using assms ne by (simp add: install_def)
  show "install contents upath h upath = Some IndexRedirect"
    using assms by (simp add: install_def)
qed

subsection \<open>The example runtime and the example tree\<close>

lemma addsNoEncoding_example: "addsNoEncoding exampleRuntime"
  by (simp add: addsNoEncoding_def exampleRuntime_def header_simps)

lemma keepsVary_example: "keepsVary exampleRuntime"
  by (simp add: keepsVary_def exampleRuntime_def header_simps)

lemma entryPath_index: "entryPath exampleRuntime ''docs/index.html'' = ''/docs/index.html''"
  by code_simp

lemma entryPath_png: "entryPath exampleRuntime ''logo.png'' = ''/logo.png''"
  by code_simp

lemma split_index: "path_Split ''/docs/index.html'' = (''/docs/'', ''index.html'')"
  by code_simp

lemma split_png: "path_Split ''/logo.png'' = (''/'', ''logo.png'')"
  by code_simp

lemma indexDir_docs: "indexDir ''/docs/'' = ''/docs''"
  by code_simp

lemma type_index:
  "detectContentType exampleRuntime (e_fpath exampleIndex) ''<html></html>'' = ''text/html; charset=utf-8''"
  by code_simp

lemma makeHandler_index:
  "makeHandler exampleRuntime (default_option exampleRuntime) (e_Name exampleIndex) (e_ModTime exampleIndex)
     (detectContentType exampleRuntime (e_fpath exampleIndex) ''<html></html>'') ''<html></html>'' =
   Direct ''index.html'' 0 ''text/html; charset=utf-8'' ''<html></html>''"
  unfolding type_index
  by (simp add: makeHandler_def compressible_iff default_option_def exampleIndex_def)

lemma walk_index_docs:
  "walk exampleRuntime (default_option exampleRuntime) [exampleIndex] ''/docs'' =
     Some (Direct ''index.html'' 0 ''text/html; charset=utf-8'' ''<html></html>'')"
proof -
  have "walk exampleRuntime (default_option exampleRuntime) [exampleIndex] =
        install Map.empty ''/docs/index.html''
          (makeHandler exampleRuntime (default_option exampleRuntime) (e_Name exampleIndex)
             (e_ModTime exampleIndex)
             (detectContentType exampleRuntime (e_fpath exampleIndex) ''<html></html>'') ''<html></html>'')"
    by (simp add: walk_def visit_def entryPath_index) (simp add: exampleIndex_def entryPath_index)
  then show ?thesis
    unfolding makeHandler_index using install_index(1)[OF split_index] by (simp add: indexDir_docs)
qed

lemma walk_index_nope:
  "walk exampleRuntime (default_option exampleRuntime) [exampleIndex] ''/nope'' = None"
  by (simp add: walk_def visit_def exampleIndex_def entryPath_index install_def split_index indexDir_docs)

section \<open>Compressibility (C1, C4)\<close>

text \<open>
  C1. The claim: a file gets compressed variants if and only if its length is at least
  \<open>compressibleContentLength\<close> and its content type is in \<open>compressibleContentTypes\<close>; a
  file of a type that is not listed gets no variants and is never answered with a
  \<open>Content-Encoding\<close> header. The code tests the type with
  \<open>sort.SearchStrings(...) >= 0\<close>, which holds for every type (\<open>compressible_iff\<close>).
  Evaluated here: with the default options, \<open>image/png\<close> is not in the list, the 2048
  bytes of \<open>logo.png\<close> are nevertheless compressible, and \<open>GET /logo.png\<close> with
  \<open>Accept-Encoding: gzip\<close> is answered with \<open>Content-Encoding: gzip\<close>.
\<close>

theorem C1_content_type_not_tested:
  "''image/png'' \<notin> set (compressibleContentTypes (default_option exampleRuntime)) \<and>
   compressible (default_option exampleRuntime) (replicate 2048 (CHR ''x'')) ''image/png'' \<and>
   resp_Header
     (FileServer exampleRuntime [examplePng] [] emptyWriter
        (request ''GET'' ''/logo.png'' [] [(''Accept-Encoding'', [''gzip''])]))
     ''Content-Encoding'' = Some [''gzip'']"
  by code_simp

text \<open>
  C4. For every file that the indexer classifies as compressible, the handler it builds
  carries exactly the two variants \<open>gzip\<close> and \<open>deflate\<close> (so never \<open>*\<close>), and each is
  the output of the writer of that name on the whole body: a decoder that inverts the
  gzip writer gives back the body from the \<open>gzip\<close> variant, and one that inverts the
  zlib writer gives it back from the \<open>deflate\<close> variant.
\<close>

theorem C4_variants_round_trip:
  assumes "compressible option body contentType"
    and "\<forall>b. gunzip (gzip_BestCompression rt b) = Some b"
    and "\<forall>b. inflate (zlib_BestCompression rt b) = Some b"
  shows "makeHandler rt option name modtime contentType body =
           Negotiating name modtime contentType body (variants rt body) \<and>
         dom (variants rt body) = {''gzip'', ''deflate''} \<and>
         ''*'' \<notin> dom (variants rt body) \<and>
         (\<exists>z. variants rt body ''gzip'' = Some z \<and> gunzip z = Some body) \<and>
         (\<exists>z. variants rt body ''deflate'' = Some z \<and> inflate z = Some body)"
  using assms by (auto simp: makeHandler_def variants_def)

text \<open>
  A style sheet of 1024 bytes under the default options.
\<close>

theorem C4_variants_round_trip_witness:
  "compressible (default_option exampleRuntime) (replicate 1024 (CHR ''a'')) ''text/css'' \<and>
   unframe [CHR 0x1F, CHR 0x8B] (gzip_BestCompression exampleRuntime ''abc'') = Some ''abc'' \<and>
   unframe [CHR 0x78, CHR 0xDA] (zlib_BestCompression exampleRuntime ''abc'') = Some ''abc'' \<and>
   dom (variants exampleRuntime (replicate 1024 (CHR ''a''))) = {''gzip'', ''deflate''} \<and>
   ''*'' \<notin> dom (variants exampleRuntime (replicate 1024 (CHR ''a''))) \<and>
   (\<exists>z. variants exampleRuntime (replicate 1024 (CHR ''a'')) ''gzip'' = Some z \<and>
        unframe [CHR 0x1F, CHR 0x8B] z = Some (replicate 1024 (CHR ''a''))) \<and>
   (\<exists>z. variants exampleRuntime (replicate 1024 (CHR ''a'')) ''deflate'' = Some z \<and>
        unframe [CHR 0x78, CHR 0xDA] z = Some (replicate 1024 (CHR ''a'')))"
proof -
  have h1: "compressible (default_option exampleRuntime) (replicate 1024 (CHR ''a'')) ''text/css''"
    by (simp add: compressible_iff default_option_def)
  have h2: "\<forall>b. unframe [CHR 0x1F, CHR 0x8B] (gzip_BestCompression exampleRuntime b) = Some b"
    by (simp add: unframe_def exampleRuntime_def)
  have h3: "\<forall>b. unframe [CHR 0x78, CHR 0xDA] (zlib_BestCompression exampleRuntime b) = Some b"
    by (simp add: unframe_def exampleRuntime_def)
  note c = C4_variants_round_trip[OF h1 h2 h3, of "''a.css''" 0]
  have e2: "unframe [CHR 0x1F, CHR 0x8B] (gzip_BestCompression exampleRuntime ''abc'') = Some ''abc''"
    using h2 by blast
  have e3: "unframe [CHR 0x78, CHR 0xDA] (zlib_BestCompression exampleRuntime ''abc'') = Some ''abc''"
    using h3 by blast
  from h1 e2 e3 conjunct2[OF c] show ?thesis by blast
qed

section \<open>The preference parser (C2, C8, C10)\<close>

text \<open>
  C2 (amended). For every list of values, \<open>ParseAcceptEncoding\<close> returns a permutation of
  the pairs that its loops collect (\<open>scanValues\<close>); and when none of the collected
  weights is NaN the result is in descending order of weight. This holds for every
  \<open>sort.Slice\<close> within its documented contract. Nothing is said about entries of equal
  weight: \<open>sort.Slice\<close> is not a stable sort (where it is the insertion sort, ties do
  keep their order: \<open>insertionSort_keepsTies\<close>).
\<close>

theorem C2_sorted_permutation:
  assumes "sortsSlices rt"
  shows "mset (ParseAcceptEncoding rt vs) = mset (scanValues rt [] vs) \<and>
         ((\<forall>a\<in>set (scanValues rt [] vs). QualityValue a \<noteq> NaN) \<longrightarrow>
            descending (ParseAcceptEncoding rt vs))"
  using assms by (simp add: ParseAcceptEncoding_mset ParseAcceptEncoding_descending)

text \<open>
  The header \<open>gzip;q=0.75, deflate;q=1.0, br;q=0.5\<close> under the example runtime, and the
  permutation for a header with the weight NaN.
\<close>

theorem C2_sorted_permutation_witness:
  "sortsSlices exampleRuntime \<and>
   NaN \<notin> QualityValue ` set (scanValues exampleRuntime [] [''gzip;q=0.75, deflate;q=1.0, br;q=0.5'']) \<and>
   mset (ParseAcceptEncoding exampleRuntime [''gzip;q=0.75, deflate;q=1.0, br;q=0.5'']) =
     mset (scanValues exampleRuntime [] [''gzip;q=0.75, deflate;q=1.0, br;q=0.5'']) \<and>
   descending (ParseAcceptEncoding exampleRuntime [''gzip;q=0.75, deflate;q=1.0, br;q=0.5'']) \<and>
   mset (ParseAcceptEncoding exampleRuntime [''a;q=0.5,b;q=NaN,c;q=1'']) =
     mset (scanValues exampleRuntime [] [''a;q=0.5,b;q=NaN,c;q=1''])"
proof -
  have h1: "sortsSlices exampleRuntime" by (rule sortsSlices_example)
  have h2: "\<forall>a\<in>set (scanValues exampleRuntime [] [''gzip;q=0.75, deflate;q=1.0, br;q=0.5'']).
              QualityValue a \<noteq> NaN"
    by code_simp
  have h3: "NaN \<notin> QualityValue ` set (scanValues exampleRuntime [] [''gzip;q=0.75, deflate;q=1.0, br;q=0.5''])"
    by code_simp
  note c = C2_sorted_permutation[OF h1, of "[''gzip;q=0.75, deflate;q=1.0, br;q=0.5'']"]
  note d = C2_sorted_permutation[OF h1, of "[''a;q=0.5,b;q=NaN,c;q=1'']"]
  have c2: "descending (ParseAcceptEncoding exampleRuntime [''gzip;q=0.75, deflate;q=1.0, br;q=0.5''])"
    using conjunct2[OF c] h2 by (rule mp)
  from h1 h3 conjunct1[OF c] c2 conjunct1[OF d] show ?thesis by (intro conjI) assumption+
qed

text \<open>
  The claim as written fails twice. With the weight \<open>NaN\<close>, which \<open>ParseFloat\<close> accepts,
  the insertion sort leaves \<open>a;q=0.5,b;q=NaN,c;q=1\<close> as it is: the result is not in
  descending order. With the \<open>sort.Slice\<close> of Go 1.18, the seven tokens
  \<open>a;q=0.5,b;q=0.5,c,d,e,f,g;q=0.75\<close> come out with \<open>b\<close> before \<open>a\<close>, two entries of
  equal weight in the reverse of their input order.
\<close>

theorem C2_stable_descending_counterexample:
  "ParseAcceptEncoding exampleRuntime [''a;q=0.5,b;q=NaN,c;q=1''] =
     [\<lparr>Algorithm = ''a'', QualityValue = F64 (1 / 2)\<rparr>,
      \<lparr>Algorithm = ''b'', QualityValue = NaN\<rparr>,
      \<lparr>Algorithm = ''c'', QualityValue = F64 1\<rparr>] \<and>
   \<not> descending (ParseAcceptEncoding exampleRuntime [''a;q=0.5,b;q=NaN,c;q=1'']) \<and>
   map Algorithm (scanValues exampleRuntime118 [] [''a;q=0.5,b;q=0.5,c,d,e,f,g;q=0.75'']) =
     [''a'', ''b'', ''c'', ''d'', ''e'', ''f'', ''g''] \<and>
   map Algorithm (ParseAcceptEncoding exampleRuntime118 [''a;q=0.5,b;q=0.5,c,d,e,f,g;q=0.75'']) =
     [''c'', ''d'', ''e'', ''f'', ''g'', ''b'', ''a''] \<and>
   \<not> keepsTies (scanValues exampleRuntime118 [] [''a;q=0.5,b;q=0.5,c,d,e,f,g;q=0.75''])
       (ParseAcceptEncoding exampleRuntime118 [''a;q=0.5,b;q=0.5,c,d,e,f,g;q=0.75''])"
proof (intro conjI)
  show "ParseAcceptEncoding exampleRuntime [''a;q=0.5,b;q=NaN,c;q=1''] =
     [\<lparr>Algorithm = ''a'', QualityValue = F64 (1 / 2)\<rparr>,
      \<lparr>Algorithm = ''b'', QualityValue = NaN\<rparr>,
      \<lparr>Algorithm = ''c'', QualityValue = F64 1\<rparr>]"
    by code_simp
  show "\<not> descending (ParseAcceptEncoding exampleRuntime [''a;q=0.5,b;q=NaN,c;q=1''])"
    by code_simp
  show "map Algorithm (scanValues exampleRuntime118 [] [''a;q=0.5,b;q=0.5,c,d,e,f,g;q=0.75'']) =
     [''a'', ''b'', ''c'', ''d'', ''e'', ''f'', ''g'']"
    by code_simp
  show "map Algorithm (ParseAcceptEncoding exampleRuntime118 [''a;q=0.5,b;q=0.5,c,d,e,f,g;q=0.75'']) =
     [''c'', ''d'', ''e'', ''f'', ''g'', ''b'', ''a'']"
    by code_simp
  have d: "filter (\<lambda>a. QualityValue a = F64 (1 / 2))
             (ParseAcceptEncoding exampleRuntime118 [''a;q=0.5,b;q=0.5,c,d,e,f,g;q=0.75'']) \<noteq>
           filter (\<lambda>a. QualityValue a = F64 (1 / 2))
             (scanValues exampleRuntime118 [] [''a;q=0.5,b;q=0.5,c,d,e,f,g;q=0.75''])"
    by code_simp
  show "\<not> keepsTies (scanValues exampleRuntime118 [] [''a;q=0.5,b;q=0.5,c,d,e,f,g;q=0.75''])
          (ParseAcceptEncoding exampleRuntime118 [''a;q=0.5,b;q=0.5,c,d,e,f,g;q=0.75''])"
  proof
    assume "keepsTies (scanValues exampleRuntime118 [] [''a;q=0.5,b;q=0.5,c,d,e,f,g;q=0.75''])
              (ParseAcceptEncoding exampleRuntime118 [''a;q=0.5,b;q=0.5,c,d,e,f,g;q=0.75''])"
    then have "filter (\<lambda>a. QualityValue a = F64 (1 / 2))
             (ParseAcceptEncoding exampleRuntime118 [''a;q=0.5,b;q=0.5,c,d,e,f,g;q=0.75'']) =
           filter (\<lambda>a. QualityValue a = F64 (1 / 2))
             (scanValues exampleRuntime118 [] [''a;q=0.5,b;q=0.5,c,d,e,f,g;q=0.75''])"
      unfolding keepsTies_def by blast
    with d show False by contradiction
  qed
qed

text \<open>
  C8 (amended). A token whose last \<open>;q=\<close> stands after its first byte
  (\<open>LastIndex > 0\<close>) and whose trimmed suffix \<open>ParseFloat\<close> rejects contributes nothing:
  the result is the sorted collection of the other tokens, wherever the token stands
  among the tokens of all the values. A token whose only \<open>;q=\<close> stands at its first
  byte (\<open>LastIndex = 0\<close>) is not read as weighted: whatever follows the marker, it
  contributes the token itself, trimmed of white space, with the weight 1. In
  particular \<open>gzip;q=abc\<close> alone gives the empty list, \<open>ParseFloat\<close> rejecting \<open>abc\<close>.
\<close>

theorem C8_unparsable_weight_dropped:
  assumes "sortsSlices rt"
  shows "(\<forall>vs ts1 w ts2.
            concat (map (\<lambda>v. Split v CHR '','') vs) = ts1 @ w # ts2 \<and>
            0 < LastIndex w '';q='' \<and>
            strconv_ParseFloat rt (TrimSpace (drop (nat (LastIndex w '';q='' + 3)) w)) = None \<longrightarrow>
            ParseAcceptEncoding rt vs =
              sort_Slice rt qualityLess (List.map_filter (parseToken rt) (ts1 @ ts2))) \<and>
         (\<forall>vs ts1 w ts2.
            concat (map (\<lambda>v. Split v CHR '','') vs) = ts1 @ w # ts2 \<and>
            LastIndex w '';q='' = 0 \<longrightarrow>
            ParseAcceptEncoding rt vs =
              sort_Slice rt qualityLess
                (List.map_filter (parseToken rt) ts1 @
                 \<lparr>Algorithm = TrimSpace w, QualityValue = F64 1\<rparr> #
                 List.map_filter (parseToken rt) ts2)) \<and>
         (strconv_ParseFloat rt ''abc'' = None \<longrightarrow> ParseAcceptEncoding rt [''gzip;q=abc''] = [])"
proof (intro conjI allI impI)
  fix vs ts1 w ts2
  assume a: "concat (map (\<lambda>v. Split v CHR '','') vs) = ts1 @ w # ts2 \<and>
            0 < LastIndex w '';q='' \<and>
            strconv_ParseFloat rt (TrimSpace (drop (nat (LastIndex w '';q='' + 3)) w)) = None"
  then have "parseToken rt w = None" by (simp add: parseToken_unparsable)
  then have "List.map_filter (parseToken rt) (ts1 @ w # ts2) =
             List.map_filter (parseToken rt) (ts1 @ ts2)"
    by (simp add: map_filter_app List.map_filter_simps)
  with a show "ParseAcceptEncoding rt vs =
              sort_Slice rt qualityLess (List.map_filter (parseToken rt) (ts1 @ ts2))"
    by (simp add: ParseAcceptEncoding_def scanValues_eq)
next
  fix vs ts1 w ts2
  assume a: "concat (map (\<lambda>v. Split v CHR '','') vs) = ts1 @ w # ts2 \<and> LastIndex w '';q='' = 0"
  then have "parseToken rt w = Some \<lparr>Algorithm = TrimSpace w, QualityValue = F64 1\<rparr>"
    by (simp add: parseToken_unweighted)
  then have "List.map_filter (parseToken rt) (ts1 @ w # ts2) =
             List.map_filter (parseToken rt) ts1 @
             \<lparr>Algorithm = TrimSpace w, QualityValue = F64 1\<rparr> # List.map_filter (parseToken rt) ts2"
    by (simp add: map_filter_app List.map_filter_simps)
  with a show "ParseAcceptEncoding rt vs =
              sort_Slice rt qualityLess
                (List.map_filter (parseToken rt) ts1 @
                 \<lparr>Algorithm = TrimSpace w, QualityValue = F64 1\<rparr> #
                 List.map_filter (parseToken rt) ts2)"
    by (simp add: ParseAcceptEncoding_def scanValues_eq)
next
  assume f: "strconv_ParseFloat rt ''abc'' = None"
  have i: "LastIndex ''gzip;q=abc'' '';q='' = 4" by code_simp
  have t: "TrimSpace ''abc'' = ''abc''" by code_simp
  have "parseToken rt ''gzip;q=abc'' = None"
    using f by (simp add: parseToken_def i t)
  moreover have "Split ''gzip;q=abc'' CHR '','' = [''gzip;q=abc'']" by code_simp
  ultimately show "ParseAcceptEncoding rt [''gzip;q=abc''] = []"
    using assms by (simp add: ParseAcceptEncoding_def sort_Slice_Nil)
qed

text \<open>
  The values \<open>gzip;q=0.5, br;q=fast\<close> and \<open>deflate\<close>; the value \<open>gzip;q=0.5,;q=0.25 \<close>,
  whose second token begins with the marker and ends with a space; and the value
  \<open>gzip;q=abc\<close>.
\<close>

theorem C8_unparsable_weight_dropped_witness:
  "sortsSlices exampleRuntime \<and>
   concat (map (\<lambda>v. Split v CHR '','') [''gzip;q=0.5, br;q=fast'', ''deflate'']) =
     [''gzip;q=0.5''] @ '' br;q=fast'' # [''deflate''] \<and>
   0 < LastIndex '' br;q=fast'' '';q='' \<and>
   strconv_ParseFloat exampleRuntime
     (TrimSpace (drop (nat (LastIndex '' br;q=fast'' '';q='' + 3)) '' br;q=fast'')) = None \<and>
   ParseAcceptEncoding exampleRuntime [''gzip;q=0.5, br;q=fast'', ''deflate''] =
     [\<lparr>Algorithm = ''deflate'', QualityValue = F64 1\<rparr>,
      \<lparr>Algorithm = ''gzip'', QualityValue = F64 (1 / 2)\<rparr>] \<and>
   concat (map (\<lambda>v. Split v CHR '','') [''gzip;q=0.5,;q=0.25 '']) = [''gzip;q=0.5''] @ '';q=0.25 '' # [] \<and>
   LastIndex '';q=0.25 '' '';q='' = 0 \<and>
   ParseAcceptEncoding exampleRuntime [''gzip;q=0.5,;q=0.25 ''] =
     [\<lparr>Algorithm = '';q=0.25'', QualityValue = F64 1\<rparr>,
      \<lparr>Algorithm = ''gzip'', QualityValue = F64 (1 / 2)\<rparr>] \<and>
   strconv_ParseFloat exampleRuntime ''abc'' = None \<and>
   ParseAcceptEncoding exampleRuntime [''gzip;q=abc''] = []"
proof -
  have h: "sortsSlices exampleRuntime" by (rule sortsSlices_example)
  have a1: "concat (map (\<lambda>v. Split v CHR '','') [''gzip;q=0.5, br;q=fast'', ''deflate'']) =
     [''gzip;q=0.5''] @ '' br;q=fast'' # [''deflate'']" by code_simp
  have a2: "0 < LastIndex '' br;q=fast'' '';q=''" by code_simp
  have a3: "strconv_ParseFloat exampleRuntime
     (TrimSpace (drop (nat (LastIndex '' br;q=fast'' '';q='' + 3)) '' br;q=fast'')) = None"
    by code_simp
  have a4: "strconv_ParseFloat exampleRuntime ''abc'' = None" by code_simp
  have b1: "concat (map (\<lambda>v. Split v CHR '','') [''gzip;q=0.5,;q=0.25 '']) =
     [''gzip;q=0.5''] @ '';q=0.25 '' # []" by code_simp
  have b2: "LastIndex '';q=0.25 '' '';q='' = 0" by code_simp
  note c = C8_unparsable_weight_dropped[OF h]
  have r1: "ParseAcceptEncoding exampleRuntime [''gzip;q=0.5, br;q=fast'', ''deflate''] =
     sort_Slice exampleRuntime qualityLess
       (List.map_filter (parseToken exampleRuntime) ([''gzip;q=0.5''] @ [''deflate'']))"
    using conjunct1[OF c] a1 a2 a3 by blast
  have r2: "sort_Slice exampleRuntime qualityLess
       (List.map_filter (parseToken exampleRuntime) ([''gzip;q=0.5''] @ [''deflate''])) =
     [\<lparr>Algorithm = ''deflate'', QualityValue = F64 1\<rparr>,
      \<lparr>Algorithm = ''gzip'', QualityValue = F64 (1 / 2)\<rparr>]"
    by code_simp
  have s1: "ParseAcceptEncoding exampleRuntime [''gzip;q=0.5,;q=0.25 ''] =
     sort_Slice exampleRuntime qualityLess
       (List.map_filter (parseToken exampleRuntime) [''gzip;q=0.5''] @
        \<lparr>Algorithm = TrimSpace '';q=0.25 '', QualityValue = F64 1\<rparr> #
        List.map_filter (parseToken exampleRuntime) [])"
    using conjunct1[OF conjunct2[OF c]] b1 b2 by blast
  have s2: "sort_Slice exampleRuntime qualityLess
       (List.map_filter (parseToken exampleRuntime) [''gzip;q=0.5''] @
        \<lparr>Algorithm = TrimSpace '';q=0.25 '', QualityValue = F64 1\<rparr> #
        List.map_filter (parseToken exampleRuntime) []) =
     [\<lparr>Algorithm = '';q=0.25'', QualityValue = F64 1\<rparr>,
      \<lparr>Algorithm = ''gzip'', QualityValue = F64 (1 / 2)\<rparr>]"
    by code_simp
  have r3: "ParseAcceptEncoding exampleRuntime [''gzip;q=abc''] = []"
    using conjunct2[OF conjunct2[OF c]] a4 by blast
  from h a1 a2 a3 r1[unfolded r2] b1 b2 s1[unfolded s2] a4 r3 show ?thesis
    by (intro conjI) assumption+
qed

text \<open>
  The claim as written fails for a token that begins with the marker: the test is
  \<open>i > 0\<close>, so \<open>;q=abc\<close> takes the other branch and is kept whole, with the default
  weight 1.
\<close>

theorem C8_marker_at_start_counterexample:
  "LastIndex '';q=abc'' '';q='' = 0 \<and>
   strconv_ParseFloat exampleRuntime ''abc'' = None \<and>
   ParseAcceptEncoding exampleRuntime ['';q=abc''] =
     [\<lparr>Algorithm = '';q=abc'', QualityValue = F64 1\<rparr>]"
  by code_simp

text \<open>
  C10 (amended). An empty list of values gives an empty result, while the single value
  \<open>""\<close>, and any value that consists of spaces only, gives the one preference with the
  algorithm \<open>""\<close> and the weight 1. The empty list is not the only input with an empty
  result: the result is empty exactly when every token of every value has its last
  \<open>;q=\<close> after its first byte and a weight that \<open>ParseFloat\<close> rejects, as \<open>br;q=x\<close> has.
\<close>

theorem C10_blank_value:
  assumes "sortsSlices rt"
  shows "ParseAcceptEncoding rt [] = [] \<and>
         ParseAcceptEncoding rt [''''] = [\<lparr>Algorithm = '''', QualityValue = F64 1\<rparr>] \<and>
         ParseAcceptEncoding rt [replicate n (CHR 0x20)] = [\<lparr>Algorithm = '''', QualityValue = F64 1\<rparr>] \<and>
         (ParseAcceptEncoding rt vs = [] \<longleftrightarrow>
            (\<forall>w\<in>set (concat (map (\<lambda>v. Split v CHR '','') vs)).
               0 < LastIndex w '';q='' \<and>
               strconv_ParseFloat rt (TrimSpace (drop (nat (LastIndex w '';q='' + 3)) w)) = None)) \<and>
         (strconv_ParseFloat rt ''x'' = None \<longrightarrow> ParseAcceptEncoding rt [''br;q=x''] = [])"
proof (intro conjI impI)
  show "ParseAcceptEncoding rt [] = []"
    using assms by (simp add: ParseAcceptEncoding_def sort_Slice_Nil)
  show "ParseAcceptEncoding rt [replicate n (CHR 0x20)] = [\<lparr>Algorithm = '''', QualityValue = F64 1\<rparr>]"
    using assms by (rule ParseAcceptEncoding_blank)
  show "ParseAcceptEncoding rt [''''] = [\<lparr>Algorithm = '''', QualityValue = F64 1\<rparr>]"
    using ParseAcceptEncoding_blank[OF assms, of 0] by simp
  show e: "ParseAcceptEncoding rt vs = [] \<longleftrightarrow>
            (\<forall>w\<in>set (concat (map (\<lambda>v. Split v CHR '','') vs)).
               0 < LastIndex w '';q='' \<and>
               strconv_ParseFloat rt (TrimSpace (drop (nat (LastIndex w '';q='' + 3)) w)) = None)" for vs
    unfolding ParseAcceptEncoding_Nil_iff[OF assms] parseToken_None_iff ..
  assume f: "strconv_ParseFloat rt ''x'' = None"
  have i: "LastIndex ''br;q=x'' '';q='' = 2" by code_simp
  have t: "TrimSpace ''x'' = ''x''" by code_simp
  have s: "Split ''br;q=x'' CHR '','' = [''br;q=x'']" by code_simp
  show "ParseAcceptEncoding rt [''br;q=x''] = []"
    unfolding e using f by (simp add: s i t)
qed

text \<open>
  No value, the empty value, a value of three spaces, and the value \<open>br;q=x\<close>.
\<close>

theorem C10_blank_value_witness:
  "sortsSlices exampleRuntime \<and>
   ParseAcceptEncoding exampleRuntime [] = [] \<and>
   ParseAcceptEncoding exampleRuntime [''''] = [\<lparr>Algorithm = '''', QualityValue = F64 1\<rparr>] \<and>
   ParseAcceptEncoding exampleRuntime [''   ''] = [\<lparr>Algorithm = '''', QualityValue = F64 1\<rparr>] \<and>
   strconv_ParseFloat exampleRuntime ''x'' = None \<and>
   ParseAcceptEncoding exampleRuntime [''br;q=x''] = []"
proof -
  have h: "sortsSlices exampleRuntime" by (rule sortsSlices_example)
  have e: "replicate 3 (CHR 0x20) = ''   ''" by code_simp
  have f: "strconv_ParseFloat exampleRuntime ''x'' = None" by code_simp
  note c = C10_blank_value[OF h, of 3, unfolded e]
  have c5: "ParseAcceptEncoding exampleRuntime [''br;q=x''] = []"
    using conjunct2[OF conjunct2[OF conjunct2[OF conjunct2[OF c]]]] f by (rule mp)
  from h conjunct1[OF c] conjunct1[OF conjunct2[OF c]] conjunct1[OF conjunct2[OF conjunct2[OF c]]] f c5
  show ?thesis by (intro conjI) assumption+
qed

text \<open>
  The empty list of values is not the only input with an empty result: the one value
  \<open>br;q=x\<close> gives the empty list too.
\<close>

theorem C10_empty_output_counterexample:
  "[''br;q=x''] \<noteq> ([] :: string list) \<and> ParseAcceptEncoding exampleRuntime [''br;q=x''] = []"
  by code_simp

section \<open>The negotiating handler (C3, C5, C7)\<close>

text \<open>
  C3 (amended). When \<open>r.Header.Get("Range")\<close> is not empty, that is when the first
  value of the \<open>Range\<close> header is not the empty string, the handler of a resource with
  variants does not look at \<open>Accept-Encoding\<close>: it sets \<open>Content-Type\<close> and hands the
  unchanged body to \<open>http.ServeContent\<close>. It sets no \<open>Content-Encoding\<close>: the response
  has none when the writer had none and \<open>ServeContent\<close> adds none.
\<close>

theorem C3_range_bypasses_negotiation:
  assumes "Header_Get (Header r) ''Range'' \<noteq> []"
  shows "serve rt (Negotiating name modtime contentType body compressed) w r =
           http_ServeContent rt (w_Set w ''Content-Type'' contentType) r name modtime body \<and>
         (addsNoEncoding rt \<and> resp_Header w ''Content-Encoding'' = None \<longrightarrow>
            resp_Header (serve rt (Negotiating name modtime contentType body compressed) w r)
              ''Content-Encoding'' = None)"
proof -
  have s: "serve rt (Negotiating name modtime contentType body compressed) w r =
           http_ServeContent rt (w_Set w ''Content-Type'' contentType) r name modtime body"
    by (rule serve_miss) (simp add: assms)
  have "resp_Header (w_Set w ''Content-Type'' contentType) ''Content-Encoding'' = None"
    if "resp_Header w ''Content-Encoding'' = None"
    using that by (simp add: header_simps)
  then show ?thesis unfolding s by (auto simp: addsNoEncoding_def)
qed

text \<open>
  \<open>Accept-Encoding: gzip;q=0.25, deflate;q=0.75\<close> with \<open>Range: bytes=0-10\<close>.
\<close>

theorem C3_range_bypasses_negotiation_witness:
  "Header_Get (Header (request ''GET'' ''/a.svg'' []
      [(''Accept-Encoding'', [''gzip;q=0.25, deflate;q=0.75'']), (''Range'', [''bytes=0-10''])])) ''Range''
     = ''bytes=0-10'' \<and>
   addsNoEncoding exampleRuntime \<and>
   serve exampleRuntime exampleHandler emptyWriter
     (request ''GET'' ''/a.svg'' []
        [(''Accept-Encoding'', [''gzip;q=0.25, deflate;q=0.75'']), (''Range'', [''bytes=0-10''])]) =
   http_ServeContent exampleRuntime (w_Set emptyWriter ''Content-Type'' ''image/svg+xml'')
     (request ''GET'' ''/a.svg'' []
        [(''Accept-Encoding'', [''gzip;q=0.25, deflate;q=0.75'']), (''Range'', [''bytes=0-10''])])
     ''a.svg'' 0 exampleBody \<and>
   resp_Header (serve exampleRuntime exampleHandler emptyWriter
     (request ''GET'' ''/a.svg'' []
        [(''Accept-Encoding'', [''gzip;q=0.25, deflate;q=0.75'']), (''Range'', [''bytes=0-10''])]))
     ''Content-Encoding'' = None"
proof -
  let ?r = "request ''GET'' ''/a.svg'' []
        [(''Accept-Encoding'', [''gzip;q=0.25, deflate;q=0.75'']), (''Range'', [''bytes=0-10''])]"
  have g: "Header_Get (Header ?r) ''Range'' = ''bytes=0-10''" by code_simp
  then have h1: "Header_Get (Header ?r) ''Range'' \<noteq> []" by simp
  have h5: "resp_Header emptyWriter ''Content-Encoding'' = None" by code_simp
  note c = C3_range_bypasses_negotiation[OF h1, of exampleRuntime "''a.svg''" 0 "''image/svg+xml''"
      exampleBody "variants exampleRuntime exampleBody" emptyWriter, folded exampleHandler_def]
  have c2: "resp_Header (serve exampleRuntime exampleHandler emptyWriter ?r) ''Content-Encoding'' = None"
    using conjunct2[OF c] addsNoEncoding_example h5 by blast
  from g addsNoEncoding_example conjunct1[OF c] c2 show ?thesis
    by (intro conjI) assumption+
qed

text \<open>
  The claim as written fails for a request that carries a \<open>Range\<close> header with an empty
  value: \<open>Get\<close> returns \<open>""\<close>, the handler negotiates, and the gzip variant is served.
\<close>

theorem C3_empty_range_counterexample:
  "Header (request ''GET'' ''/a.svg'' [] [(''Accept-Encoding'', [''gzip'']), (''Range'', [''''])])
     ''Range'' = Some [''''] \<and>
   resp_Header (serve exampleRuntime exampleHandler emptyWriter
       (request ''GET'' ''/a.svg'' [] [(''Accept-Encoding'', [''gzip'']), (''Range'', [''''])]))
     ''Content-Encoding'' = Some [''gzip''] \<and>
   resp_body (serve exampleRuntime exampleHandler emptyWriter
       (request ''GET'' ''/a.svg'' [] [(''Accept-Encoding'', [''gzip'']), (''Range'', [''''])])) =
     gzip_BestCompression exampleRuntime exampleBody"
  by code_simp

text \<open>
  C5 (amended). Without a \<open>Range\<close> value, the handler of a resource with variants scans
  the preferences in the order the parser returns (from the highest weight to the
  lowest when no weight is NaN, for every \<open>sort.Slice\<close> within its contract) and takes
  the first whose algorithm is a key of the variants, whatever its weight; with no NaN
  weight, no preference that names a key has a greater weight than the one taken. The
  response then has status 200, the headers \<open>Accept-Ranges: bytes\<close>, \<open>Last-Modified\<close>,
  \<open>Content-Encoding\<close> (the chosen algorithm) and \<open>Content-Type\<close>, and its body is the
  whole variant, unless the method is \<open>HEAD\<close>, in which case nothing is written.
\<close>

theorem C5_first_match_served:
  assumes "Header_Get (Header r) ''Range'' = []"
    and "find (\<lambda>a. variants rt body (Algorithm a) \<noteq> None)
           (ParseAcceptEncoding rt (Header_Values (Header r) ''Accept-Encoding'')) = Some a"
    and "resp_status w = None"
    and "w' = serve rt (Negotiating name modtime contentType body (variants rt body)) w r"
  shows "resp_status w' = Some 200 \<and>
         resp_Header w' ''Accept-Ranges'' = Some [''bytes''] \<and>
         resp_Header w' ''Last-Modified'' = Some [http_TimeFormat rt modtime] \<and>
         resp_Header w' ''Content-Encoding'' = Some [Algorithm a] \<and>
         resp_Header w' ''Content-Type'' = Some [contentType] \<and>
         resp_body w' = resp_body w @
           (if Method r = ''HEAD'' then []
            else if Algorithm a = ''gzip'' then gzip_BestCompression rt body
            else zlib_BestCompression rt body) \<and>
         (sortsSlices rt \<and>
          (\<forall>b\<in>set (scanValues rt [] (Header_Values (Header r) ''Accept-Encoding'')).
             QualityValue b \<noteq> NaN) \<longrightarrow>
            descending (ParseAcceptEncoding rt (Header_Values (Header r) ''Accept-Encoding'')) \<and>
            (\<forall>b\<in>set (ParseAcceptEncoding rt (Header_Values (Header r) ''Accept-Encoding'')).
               variants rt body (Algorithm b) \<noteq> None \<longrightarrow>
               f64_ge (QualityValue a) (QualityValue b)))"
proof -
  let ?vs = "Header_Values (Header r) ''Accept-Encoding''"
  have f: "firstAccepted (variants rt body) (ParseAcceptEncoding rt ?vs) = Algorithm a"
    using assms(2) by (rule firstAccepted_find)
  have "variants rt body (Algorithm a) \<noteq> None"
    using assms(2) by (auto simp: find_Some_iff)
  then have k: "Algorithm a = ''gzip'' \<or> Algorithm a = ''deflate''"
    by (rule variants_cases)
  then have ne: "Algorithm a \<noteq> []" by auto
  note h = serve_hit[OF assms(1) f ne]
  have resp: "resp_status w' = Some 200 \<and>
         resp_Header w' ''Accept-Ranges'' = Some [''bytes''] \<and>
         resp_Header w' ''Last-Modified'' = Some [http_TimeFormat rt modtime] \<and>
         resp_Header w' ''Content-Encoding'' = Some [Algorithm a] \<and>
         resp_Header w' ''Content-Type'' = Some [contentType] \<and>
         resp_body w' = resp_body w @
           (if Method r = ''HEAD'' then []
            else if Algorithm a = ''gzip'' then gzip_BestCompression rt body
            else zlib_BestCompression rt body)"
    using k unfolding assms(4) h using assms(3)
    by (auto simp: Let_def header_simps variants_def)
  have ord: "descending (ParseAcceptEncoding rt ?vs) \<and>
            (\<forall>b\<in>set (ParseAcceptEncoding rt ?vs).
               variants rt body (Algorithm b) \<noteq> None \<longrightarrow>
               f64_ge (QualityValue a) (QualityValue b))"
    if c: "sortsSlices rt" and n: "\<forall>b\<in>set (scanValues rt [] ?vs). QualityValue b \<noteq> NaN"
  proof -
    have d: "descending (ParseAcceptEncoding rt ?vs)"
      using c n by (rule ParseAcceptEncoding_descending)
    have "set (ParseAcceptEncoding rt ?vs) = set (scanValues rt [] ?vs)"
      using ParseAcceptEncoding_mset[OF c, of ?vs] by (metis set_mset_mset)
    then have n': "\<forall>x\<in>set (ParseAcceptEncoding rt ?vs). QualityValue x \<noteq> NaN"
      using n by simp
    have "f64_ge (QualityValue a) (QualityValue b)"
      if "b \<in> set (ParseAcceptEncoding rt ?vs)" "variants rt body (Algorithm b) \<noteq> None" for b
      using first_match_maximal[OF assms(2) d[unfolded descending_def] n' that(1)] that(2) by simp
    with d show ?thesis by blast
  qed
  from resp ord show ?thesis by blast
qed

text \<open>
  \<open>Accept-Encoding: br, gzip;q=0\<close>: gzip is served although its weight is 0.
\<close>

theorem C5_first_match_served_witness:
  "Header_Get (Header (request ''GET'' ''/a.svg'' [] [(''Accept-Encoding'', [''br, gzip;q=0''])])) ''Range'' = [] \<and>
   sortsSlices exampleRuntime \<and>
   ParseAcceptEncoding exampleRuntime
     (Header_Values (Header (request ''GET'' ''/a.svg'' [] [(''Accept-Encoding'', [''br, gzip;q=0''])]))
        ''Accept-Encoding'') =
     [\<lparr>Algorithm = ''br'', QualityValue = F64 1\<rparr>, \<lparr>Algorithm = ''gzip'', QualityValue = F64 0\<rparr>] \<and>
   descending (ParseAcceptEncoding exampleRuntime
     (Header_Values (Header (request ''GET'' ''/a.svg'' [] [(''Accept-Encoding'', [''br, gzip;q=0''])]))
        ''Accept-Encoding'')) \<and>
   resp_status (serve exampleRuntime exampleHandler emptyWriter
     (request ''GET'' ''/a.svg'' [] [(''Accept-Encoding'', [''br, gzip;q=0''])])) = Some 200 \<and>
   resp_Header (serve exampleRuntime exampleHandler emptyWriter
     (request ''GET'' ''/a.svg'' [] [(''Accept-Encoding'', [''br, gzip;q=0''])])) ''Content-Encoding'' =
     Some [''gzip''] \<and>
   resp_body (serve exampleRuntime exampleHandler emptyWriter
     (request ''GET'' ''/a.svg'' [] [(''Accept-Encoding'', [''br, gzip;q=0''])])) =
     gzip_BestCompression exampleRuntime exampleBody"
proof -
  let ?r = "request ''GET'' ''/a.svg'' [] [(''Accept-Encoding'', [''br, gzip;q=0''])]"
  let ?a = "\<lparr>Algorithm = ''gzip'', QualityValue = F64 0\<rparr>"
  have h1: "Header_Get (Header ?r) ''Range'' = []" by code_simp
  have p: "ParseAcceptEncoding exampleRuntime (Header_Values (Header ?r) ''Accept-Encoding'') =
     [\<lparr>Algorithm = ''br'', QualityValue = F64 1\<rparr>, ?a]" by code_simp
  have h2: "find (\<lambda>a. variants exampleRuntime exampleBody (Algorithm a) \<noteq> None)
           (ParseAcceptEncoding exampleRuntime (Header_Values (Header ?r) ''Accept-Encoding'')) = Some ?a"
    unfolding p by (simp add: variants_def)
  have h3: "resp_status emptyWriter = None" by (simp add: emptyWriter_def)
  have h4: "serve exampleRuntime exampleHandler emptyWriter ?r =
            serve exampleRuntime (Negotiating ''a.svg'' 0 ''image/svg+xml'' exampleBody
              (variants exampleRuntime exampleBody)) emptyWriter ?r"
    by (simp only: exampleHandler_def)
  have s: "sortsSlices exampleRuntime" by (rule sortsSlices_example)
  have n: "\<forall>b\<in>set (scanValues exampleRuntime [] (Header_Values (Header ?r) ''Accept-Encoding'')).
             QualityValue b \<noteq> NaN"
    by code_simp
  note c = C5_first_match_served[OF h1 h2 h3 h4]
  have m: "Method ?r \<noteq> ''HEAD''" by (simp add: request_def)
  have b: "resp_body emptyWriter = []" by (simp add: emptyWriter_def)
  have c1: "resp_status (serve exampleRuntime exampleHandler emptyWriter ?r) = Some 200"
    using c by blast
  have c2: "resp_Header (serve exampleRuntime exampleHandler emptyWriter ?r) ''Content-Encoding'' =
     Some [''gzip'']"
    using c by simp
  have c3: "resp_body (serve exampleRuntime exampleHandler emptyWriter ?r) =
     gzip_BestCompression exampleRuntime exampleBody"
    using c m b by simp
  have c4: "descending (ParseAcceptEncoding exampleRuntime (Header_Values (Header ?r) ''Accept-Encoding''))"
    using c s n by blast
  from h1 s p c4 c1 c2 c3 show ?thesis by (intro conjI) assumption+
qed

text \<open>
  The claim as written fails twice. For \<open>HEAD\<close> the match is made and the headers are
  set, but the compressed body is not written. And with the weight NaN the scan is not
  from the highest weight to the lowest: for \<open>gzip;q=0.5,x;q=NaN,deflate;q=1\<close> the
  insertion sort moves nothing, and gzip (weight 0.5) is served although deflate has
  the weight 1.
\<close>

theorem C5_head_and_nan_counterexample:
  "Header_Get (Header (request ''HEAD'' ''/a.svg'' [] [(''Accept-Encoding'', [''gzip''])])) ''Range'' = [] \<and>
   resp_Header (serve exampleRuntime exampleHandler emptyWriter
     (request ''HEAD'' ''/a.svg'' [] [(''Accept-Encoding'', [''gzip''])])) ''Content-Encoding'' =
     Some [''gzip''] \<and>
   resp_body (serve exampleRuntime exampleHandler emptyWriter
     (request ''HEAD'' ''/a.svg'' [] [(''Accept-Encoding'', [''gzip''])])) = [] \<and>
   gzip_BestCompression exampleRuntime exampleBody \<noteq> [] \<and>
   Header_Get (Header (request ''GET'' ''/a.svg'' []
     [(''Accept-Encoding'', [''gzip;q=0.5,x;q=NaN,deflate;q=1''])])) ''Range'' = [] \<and>
   ParseAcceptEncoding exampleRuntime [''gzip;q=0.5,x;q=NaN,deflate;q=1''] =
     [\<lparr>Algorithm = ''gzip'', QualityValue = F64 (1 / 2)\<rparr>,
      \<lparr>Algorithm = ''x'', QualityValue = NaN\<rparr>,
      \<lparr>Algorithm = ''deflate'', QualityValue = F64 1\<rparr>] \<and>
   f64_gt (F64 1) (F64 (1 / 2)) \<and>
   resp_Header (serve exampleRuntime exampleHandler emptyWriter
     (request ''GET'' ''/a.svg'' [] [(''Accept-Encoding'', [''gzip;q=0.5,x;q=NaN,deflate;q=1''])]))
     ''Content-Encoding'' = Some [''gzip'']"
  by code_simp

text \<open>
  C7. Without a \<open>Range\<close> value, when no preference names a key of the variants, the
  handler sets \<open>Content-Type\<close> and hands the unchanged body to \<open>http.ServeContent\<close>; no
  error is raised. It sets no \<open>Content-Encoding\<close>: the response has none when the writer
  had none and \<open>ServeContent\<close> adds none.
\<close>

theorem C7_negotiation_miss:
  assumes "Header_Get (Header r) ''Range'' = []"
    and "\<forall>a\<in>set (ParseAcceptEncoding rt (Header_Values (Header r) ''Accept-Encoding'')).
           compressed (Algorithm a) = None"
  shows "serve rt (Negotiating name modtime contentType body compressed) w r =
           http_ServeContent rt (w_Set w ''Content-Type'' contentType) r name modtime body \<and>
         (addsNoEncoding rt \<and> resp_Header w ''Content-Encoding'' = None \<longrightarrow>
            resp_Header (serve rt (Negotiating name modtime contentType body compressed) w r)
              ''Content-Encoding'' = None)"
proof -
  have m: "firstAccepted compressed
             (ParseAcceptEncoding rt (Header_Values (Header r) ''Accept-Encoding'')) = []"
    using assms(2) by (rule firstAccepted_none)
  have s: "serve rt (Negotiating name modtime contentType body compressed) w r =
           http_ServeContent rt (w_Set w ''Content-Type'' contentType) r name modtime body"
    by (rule serve_miss) (simp add: m)
  have "resp_Header (w_Set w ''Content-Type'' contentType) ''Content-Encoding'' = None"
    if "resp_Header w ''Content-Encoding'' = None"
    using that by (simp add: header_simps)
  then show ?thesis unfolding s by (auto simp: addsNoEncoding_def)
qed

text \<open>
  \<open>Accept-Encoding: br;q=1.0\<close> against the variants \<open>gzip\<close> and \<open>deflate\<close>.
\<close>

theorem C7_negotiation_miss_witness:
  "Header_Get (Header (request ''GET'' ''/a.svg'' [] [(''Accept-Encoding'', [''br;q=1.0''])])) ''Range'' = [] \<and>
   map Algorithm (ParseAcceptEncoding exampleRuntime
     (Header_Values (Header (request ''GET'' ''/a.svg'' [] [(''Accept-Encoding'', [''br;q=1.0''])]))
        ''Accept-Encoding'')) = [''br''] \<and>
   variants exampleRuntime exampleBody ''br'' = None \<and>
   addsNoEncoding exampleRuntime \<and>
   serve exampleRuntime (Negotiating ''a.svg'' 0 ''image/svg+xml'' exampleBody (variants exampleRuntime exampleBody))
     emptyWriter (request ''GET'' ''/a.svg'' [] [(''Accept-Encoding'', [''br;q=1.0''])]) =
   http_ServeContent exampleRuntime (w_Set emptyWriter ''Content-Type'' ''image/svg+xml'')
     (request ''GET'' ''/a.svg'' [] [(''Accept-Encoding'', [''br;q=1.0''])]) ''a.svg'' 0 exampleBody \<and>
   resp_Header (serve exampleRuntime
       (Negotiating ''a.svg'' 0 ''image/svg+xml'' exampleBody (variants exampleRuntime exampleBody))
       emptyWriter (request ''GET'' ''/a.svg'' [] [(''Accept-Encoding'', [''br;q=1.0''])]))
     ''Content-Encoding'' = None"
proof -
  let ?r = "request ''GET'' ''/a.svg'' [] [(''Accept-Encoding'', [''br;q=1.0''])]"
  have h1: "Header_Get (Header ?r) ''Range'' = []" by code_simp
  have h2: "\<forall>a\<in>set (ParseAcceptEncoding exampleRuntime (Header_Values (Header ?r) ''Accept-Encoding'')).
              variants exampleRuntime exampleBody (Algorithm a) = None"
    by code_simp
  have h3: "map Algorithm (ParseAcceptEncoding exampleRuntime
             (Header_Values (Header ?r) ''Accept-Encoding'')) = [''br'']" by code_simp
  have h4: "variants exampleRuntime exampleBody ''br'' = None" by code_simp
  have h5: "resp_Header emptyWriter ''Content-Encoding'' = None" by code_simp
  note c = C7_negotiation_miss[OF h1 h2, of "''a.svg''" 0 "''image/svg+xml''" exampleBody emptyWriter]
  have c2: "resp_Header (serve exampleRuntime
       (Negotiating ''a.svg'' 0 ''image/svg+xml'' exampleBody (variants exampleRuntime exampleBody))
       emptyWriter ?r) ''Content-Encoding'' = None"
    using conjunct2[OF c] addsNoEncoding_example h5 by blast
  from h1 h3 h4 addsNoEncoding_example conjunct1[OF c] c2 show ?thesis
    by (intro conjI) assumption+
qed

section \<open>The routing table and the dispatcher (C6, C9)\<close>

text \<open>
  C6. For a file that is read and whose URL path splits into a directory and the name
  \<open>index.html\<close>, the table that the walk builds maps the directory (without its
  trailing slash, except for the root) to the content handler of the file and the path
  itself to the redirect handler, provided no entry visited later is installed under
  one of these two keys. The redirect handler sets \<open>Location\<close> to \<open>./\<close>, followed by
  \<open>?\<close> and the query when the query is not empty, and sends status 301.
\<close>

theorem C6_index_document:
  assumes "e_Rel e = Some relpath" and "\<not> e_IsDir e" and "e_ReadFile e = Some body"
    and "path_Split (entryPath rt relpath) = (dir, ''index.html'')"
    and "\<forall>e'\<in>set post. \<forall>c.
           visit rt option c e' (indexDir dir) = c (indexDir dir) \<and>
           visit rt option c e' (entryPath rt relpath) = c (entryPath rt relpath)"
  shows "walk rt option (pre @ e # post) (indexDir dir) =
           Some (makeHandler rt option (e_Name e) (e_ModTime e)
                   (detectContentType rt (e_fpath e) body) body) \<and>
         walk rt option (pre @ e # post) (entryPath rt relpath) = Some IndexRedirect \<and>
         entryPath rt relpath = dir @ ''index.html'' \<and>
         (dir = ''/'' \<longrightarrow> indexDir dir = ''/'') \<and>
         (\<forall>d. d \<noteq> [] \<and> dir = d @ ''/'' \<longrightarrow> indexDir dir = d) \<and>
         resp_Header (serve rt IndexRedirect w r) ''Location'' =
           Some [''./'' @ (if URL_RawQuery r \<noteq> [] then ''?'' @ URL_RawQuery r else [])] \<and>
         (resp_status w = None \<longrightarrow> resp_status (serve rt IndexRedirect w r) = Some 301)"
proof -
  let ?c = "foldl (visit rt option) Map.empty pre"
  let ?h = "makeHandler rt option (e_Name e) (e_ModTime e) (detectContentType rt (e_fpath e) body) body"
  have v: "visit rt option ?c e = install ?c (entryPath rt relpath) ?h"
    using assms(1-3) by (simp add: visit_def)
  have w: "walk rt option (pre @ e # post) = foldl (visit rt option) (visit rt option ?c e) post"
    by (simp add: walk_def)
  have k1: "walk rt option (pre @ e # post) (indexDir dir) = visit rt option ?c e (indexDir dir)"
    unfolding w using assms(5) by (intro foldl_visit_untouched) blast
  have k2: "walk rt option (pre @ e # post) (entryPath rt relpath) =
            visit rt option ?c e (entryPath rt relpath)"
    unfolding w using assms(5) by (intro foldl_visit_untouched) blast
  have 1: "walk rt option (pre @ e # post) (indexDir dir) = Some ?h"
    unfolding k1 v by (rule install_index(1)[OF assms(4)])
  have 2: "walk rt option (pre @ e # post) (entryPath rt relpath) = Some IndexRedirect"
    unfolding k2 v by (rule install_index(2)[OF assms(4)])
  have 3: "entryPath rt relpath = dir @ ''index.html''"
    using assms(4) by (rule path_Split_append)
  have 4: "resp_Header (serve rt IndexRedirect w r) ''Location'' =
           Some [''./'' @ (if URL_RawQuery r \<noteq> [] then ''?'' @ URL_RawQuery r else [])]"
    by (simp add: Let_def header_simps)
  have 5: "resp_status w = None \<longrightarrow> resp_status (serve rt IndexRedirect w r) = Some 301"
    by (simp add: Let_def header_simps)
  have 6: "dir = ''/'' \<longrightarrow> indexDir dir = ''/''" by (simp add: indexDir_root)
  have 7: "\<forall>d. d \<noteq> [] \<and> dir = d @ ''/'' \<longrightarrow> indexDir dir = d" by (auto simp: indexDir_strip)
  from 1 2 3 4 5 6 7 show ?thesis by (intro conjI) assumption+
qed

text \<open>
  The tree \<open>docs/\<close>, \<open>docs/index.html\<close>, \<open>logo.png\<close> and the request \<open>/docs/index.html?x=1\<close>.
\<close>

theorem C6_index_document_witness:
  "path_Split (entryPath exampleRuntime ''docs/index.html'') = (''/docs/'', ''index.html'') \<and>
   walk exampleRuntime (default_option exampleRuntime) ([exampleDir] @ exampleIndex # [examplePng]) ''/docs'' =
     Some (Direct ''index.html'' 0 ''text/html; charset=utf-8'' ''<html></html>'') \<and>
   walk exampleRuntime (default_option exampleRuntime) ([exampleDir] @ exampleIndex # [examplePng])
     ''/docs/index.html'' = Some IndexRedirect \<and>
   resp_Header (serve exampleRuntime IndexRedirect emptyWriter (request ''GET'' ''/docs/index.html'' ''x=1'' []))
     ''Location'' = Some [''./?x=1''] \<and>
   resp_status (serve exampleRuntime IndexRedirect emptyWriter (request ''GET'' ''/docs/index.html'' ''x=1'' []))
     = Some 301"
proof -
  let ?opt = "default_option exampleRuntime"
  let ?r = "request ''GET'' ''/docs/index.html'' ''x=1'' []"
  have h1: "e_Rel exampleIndex = Some ''docs/index.html''" by (simp add: exampleIndex_def)
  have h2: "\<not> e_IsDir exampleIndex" by (simp add: exampleIndex_def)
  have h3: "e_ReadFile exampleIndex = Some ''<html></html>''" by (simp add: exampleIndex_def)
  have h4: "path_Split (entryPath exampleRuntime ''docs/index.html'') = (''/docs/'', ''index.html'')"
    by (simp only: entryPath_index split_index)
  have v: "visit exampleRuntime ?opt c examplePng k = c k" if "k \<noteq> ''/logo.png''" for c k
    using that by (simp add: visit_def examplePng_def entryPath_png install_def split_png)
  have h5: "\<forall>e'\<in>set [examplePng]. \<forall>c.
           visit exampleRuntime ?opt c e' (indexDir ''/docs/'') = c (indexDir ''/docs/'') \<and>
           visit exampleRuntime ?opt c e' (entryPath exampleRuntime ''docs/index.html'') =
             c (entryPath exampleRuntime ''docs/index.html'')"
    by (simp add: v indexDir_docs entryPath_index)
  note c = C6_index_document[OF h1 h2 h3 h4 h5, of "[exampleDir]" emptyWriter ?r,
      unfolded indexDir_docs entryPath_index]
  have m: "makeHandler exampleRuntime ?opt (e_Name exampleIndex) (e_ModTime exampleIndex)
             (detectContentType exampleRuntime (e_fpath exampleIndex) ''<html></html>'') ''<html></html>'' =
           Direct ''index.html'' 0 ''text/html; charset=utf-8'' ''<html></html>''"
    by (rule makeHandler_index)
  have q: "''./'' @ (if URL_RawQuery ?r \<noteq> [] then ''?'' @ URL_RawQuery ?r else []) = ''./?x=1''"
    by (simp add: request_def)
  have s: "resp_status emptyWriter = None" by (simp add: emptyWriter_def)
  have c1: "walk exampleRuntime ?opt ([exampleDir] @ exampleIndex # [examplePng]) ''/docs'' =
     Some (Direct ''index.html'' 0 ''text/html; charset=utf-8'' ''<html></html>'')"
    using conjunct1[OF c] unfolding m .
  have c2: "walk exampleRuntime ?opt ([exampleDir] @ exampleIndex # [examplePng])
     ''/docs/index.html'' = Some IndexRedirect"
    using c by blast
  have c3: "resp_Header (serve exampleRuntime IndexRedirect emptyWriter ?r) ''Location'' = Some [''./?x=1'']"
    using c unfolding q by blast
  have c4: "resp_status (serve exampleRuntime IndexRedirect emptyWriter ?r) = Some 301"
    using c s by blast
  from h4 c1 c2 c3 c4 show ?thesis by (intro conjI) assumption+
qed

text \<open>
  C9. The dispatcher puts a slash in front of a path that has none, cleans the path and
  looks it up. On a miss the answer is that of the not-found handler on the unchanged
  writer. On a hit it appends \<open>Accept-Encoding\<close> to the values of \<open>Vary\<close>, keeping
  those already there, and runs the handler found; since no handler of the table and
  (by its contract) not \<open>ServeContent\<close> either touches \<open>Vary\<close>, the response carries it.
\<close>

theorem C9_dispatch:
  "URL_Path (leadingSlash r) =
     (if HasPrefix (URL_Path r) ''/'' then URL_Path r else ''/'' @ URL_Path r) \<and>
   (contents (path_Clean rt (URL_Path (leadingSlash r))) = None \<longrightarrow>
      ServeHTTP rt option contents w r = notFound option w (leadingSlash r)) \<and>
   (\<forall>h. contents (path_Clean rt (URL_Path (leadingSlash r))) = Some h \<longrightarrow>
      ServeHTTP rt option contents w r =
        serve rt h (w_Add w ''Vary'' ''Accept-Encoding'') (leadingSlash r) \<and>
      resp_Header (w_Add w ''Vary'' ''Accept-Encoding'') ''Vary'' =
        Some (Header_Values (resp_Header w) ''Vary'' @ [''Accept-Encoding'']) \<and>
      (keepsVary rt \<longrightarrow>
         resp_Header (ServeHTTP rt option contents w r) ''Vary'' =
           Some (Header_Values (resp_Header w) ''Vary'' @ [''Accept-Encoding''])))"
proof (intro conjI allI impI)
  show "URL_Path (leadingSlash r) =
     (if HasPrefix (URL_Path r) ''/'' then URL_Path r else ''/'' @ URL_Path r)"
    by (simp add: leadingSlash_def)
next
  assume "contents (path_Clean rt (URL_Path (leadingSlash r))) = None"
  then show "ServeHTTP rt option contents w r = notFound option w (leadingSlash r)"
    by (simp add: ServeHTTP_def Let_def)
next
  fix h
  assume h: "contents (path_Clean rt (URL_Path (leadingSlash r))) = Some h"
  then show s: "ServeHTTP rt option contents w r =
        serve rt h (w_Add w ''Vary'' ''Accept-Encoding'') (leadingSlash r)"
    by (simp add: ServeHTTP_def Let_def)
  show a: "resp_Header (w_Add w ''Vary'' ''Accept-Encoding'') ''Vary'' =
        Some (Header_Values (resp_Header w) ''Vary'' @ [''Accept-Encoding''])"
    by (simp add: w_Add_simps)
  assume "keepsVary rt"
  then show "resp_Header (ServeHTTP rt option contents w r) ''Vary'' =
           Some (Header_Values (resp_Header w) ''Vary'' @ [''Accept-Encoding''])"
    unfolding s by (simp add: serve_Vary a)
qed

text \<open>
  The path \<open>docs//\<close>, which is found as \<open>/docs\<close>, and the path \<open>/nope\<close>, which is not.
\<close>

theorem C9_dispatch_witness:
  "keepsVary exampleRuntime \<and>
   path_Clean exampleRuntime (URL_Path (leadingSlash (request ''GET'' ''docs//'' [] []))) = ''/docs'' \<and>
   resp_Header (ServeHTTP exampleRuntime (default_option exampleRuntime)
       (walk exampleRuntime (default_option exampleRuntime) [exampleIndex]) emptyWriter
       (request ''GET'' ''docs//'' [] [])) ''Vary'' = Some [''Accept-Encoding''] \<and>
   walk exampleRuntime (default_option exampleRuntime) [exampleIndex]
     (path_Clean exampleRuntime (URL_Path (leadingSlash (request ''GET'' ''/nope'' [] [])))) = None \<and>
   ServeHTTP exampleRuntime (default_option exampleRuntime)
       (walk exampleRuntime (default_option exampleRuntime) [exampleIndex]) emptyWriter
       (request ''GET'' ''/nope'' [] []) =
   notFound (default_option exampleRuntime) emptyWriter (request ''GET'' ''/nope'' [] [])"
proof -
  let ?opt = "default_option exampleRuntime"
  let ?c = "walk exampleRuntime ?opt [exampleIndex]"
  let ?r1 = "request ''GET'' ''docs//'' [] []"
  let ?r2 = "request ''GET'' ''/nope'' [] []"
  have p1: "path_Clean exampleRuntime (URL_Path (leadingSlash ?r1)) = ''/docs''" by code_simp
  have p2: "path_Clean exampleRuntime (URL_Path (leadingSlash ?r2)) = ''/nope''" by code_simp
  have l2: "leadingSlash ?r2 = ?r2" by (simp add: leadingSlash_def request_def HasPrefix_def)
  have k1: "?c (path_Clean exampleRuntime (URL_Path (leadingSlash ?r1))) =
            Some (Direct ''index.html'' 0 ''text/html; charset=utf-8'' ''<html></html>'')"
    unfolding p1 by (rule walk_index_docs)
  have k2: "?c (path_Clean exampleRuntime (URL_Path (leadingSlash ?r2))) = None"
    unfolding p2 by (rule walk_index_nope)
  have v: "Header_Values (resp_Header emptyWriter) ''Vary'' = []"
    by (simp add: emptyWriter_def Header_Values_def)
  note a = C9_dispatch[of ?r1 ?c exampleRuntime ?opt emptyWriter]
  note b = C9_dispatch[of ?r2 ?c exampleRuntime ?opt emptyWriter]
  have "resp_Header (ServeHTTP exampleRuntime ?opt ?c emptyWriter ?r1) ''Vary'' =
          Some (Header_Values (resp_Header emptyWriter) ''Vary'' @ [''Accept-Encoding''])"
    using conjunct2[OF conjunct2[OF a]] k1 keepsVary_example by blast
  then have c1: "resp_Header (ServeHTTP exampleRuntime ?opt ?c emptyWriter ?r1) ''Vary'' =
            Some [''Accept-Encoding'']"
    unfolding v by simp
  have "ServeHTTP exampleRuntime ?opt ?c emptyWriter ?r2 = notFound ?opt emptyWriter (leadingSlash ?r2)"
    using conjunct1[OF conjunct2[OF b]] k2 by blast
  then have c2: "ServeHTTP exampleRuntime ?opt ?c emptyWriter ?r2 = notFound ?opt emptyWriter ?r2"
    unfolding l2 .
  from keepsVary_example p1 c1 k2 c2 show ?thesis by (intro conjI) assumption+
qed

end
